theory Spec2Isabelle
  imports Complex_Main "HOL-Library.AList" "HOL-Library.Sublist"
begin

section \<open>Data model (types/monitor.ts)\<close>

text \<open>
  Numbers that hold milliseconds, counts and status codes are modelled as \<open>int\<close>;
  the fractional host metrics of a status sample are carried as \<open>real\<close> and never
  computed with. Both \<open>SystemStatus\<close> and \<open>PingResult\<close> start with the field
  \<open>timestamp\<close>, so both records extend one base record holding it.
\<close>

record Timestamped =
  timestamp :: int

record SystemStatus = Timestamped +
  uptime :: real
  loadAverage :: "real list"
  freeMemory :: int
  totalMemory :: int
  cpuUsage :: real
  networkIn :: real
  networkOut :: real

datatype Method = GET | POST | HEAD | icmp

text \<open>The fields \<open>id\<close> and \<open>method\<close> of a target are named \<open>target_id\<close> and
  \<open>target_method\<close>: both plain names are taken in Isabelle.\<close>

record PingTarget =
  target_id :: string
  name :: string
  url :: string
  target_method :: Method
  timeout :: "int option"
  headers :: "(string \<times> string) list option"
  expectedStatus :: "int option"

record PingResult = Timestamped +
  isUp :: bool
  responseTime :: int
  statusCode :: int
  serverInfo :: string
  error :: string

section \<open>JavaScript helpers\<close>

text \<open>\<open>Array.prototype.slice(start)\<close>: a negative start counts from the end, and
  both ends are clamped to the array.\<close>

definition slice :: "'a list \<Rightarrow> int \<Rightarrow> 'a list" where
  "slice xs start =
     (let n = int (length xs);
          k = (if start < 0 then max (n + start) 0 else min start n)
      in drop (nat k) xs)"

text \<open>\<open>String.prototype.includes\<close>.\<close>

fun includes_str :: "string \<Rightarrow> string \<Rightarrow> bool" where
  "includes_str [] sub = (sub = [])"
| "includes_str (c # cs) sub = (prefix sub (c # cs) \<or> includes_str cs sub)"

text \<open>Truthiness of a \<open>string | undefined\<close>: undefined and the empty string are falsy.\<close>

fun truthy :: "string option \<Rightarrow> bool" where
  "truthy None = False"
| "truthy (Some s) = (s \<noteq> [])"

text \<open>\<open>fs.writeFile\<close> on a directory modelled as an association list from file key to
  parsed content: an existing file is replaced in place, a new one is added.\<close>

definition writeFile :: "'k \<Rightarrow> 'v \<Rightarrow> ('k \<times> 'v) list \<Rightarrow> ('k \<times> 'v) list" where
  "writeFile k v dir = AList.update k v dir"

text \<open>\<open>String.prototype.endsWith\<close>, and \<open>s.replace(pattern, '')\<close> for a string pattern:
  the first occurrence of the pattern is removed.\<close>

definition endsWith :: "string \<Rightarrow> string \<Rightarrow> bool" where
  "endsWith s ending = suffix ending s"

fun removeFirst :: "string \<Rightarrow> string \<Rightarrow> string" where
  "removeFirst pattern [] = []"
| "removeFirst pattern (c # cs) =
     (if prefix pattern (c # cs) then drop (length pattern) (c # cs)
      else c # removeFirst pattern cs)"

subsection \<open>Plain objects used as dictionaries\<close>

text \<open>
  \<open>results\<close> and \<open>lastNotifiedStatus\<close> are objects created by \<open>{}\<close> and indexed by
  target id, so a lookup sees the members of \<open>Object.prototype\<close> where the object has
  no property of its own. The model keeps the own properties as a map and answers a
  lookup with \<open>Own\<close>, with \<open>Inherited\<close> and the \<open>length\<close> of the inherited value (the
  arity of a function; the prototype object behind \<open>__proto__\<close> has none), or with
  \<open>Undefined\<close>. The key \<open>__proto__\<close> is never an own property of such an object: an
  entry of the map under that key is not looked at.
\<close>

datatype 'v Lookup = Undefined | Own 'v | Inherited "nat option"

definition objectPrototype :: "(string \<times> nat) list" where
  "objectPrototype =
     [(''constructor'', 1), (''__defineGetter__'', 2), (''__defineSetter__'', 2),
      (''hasOwnProperty'', 1), (''__lookupGetter__'', 1), (''__lookupSetter__'', 1),
      (''isPrototypeOf'', 1), (''propertyIsEnumerable'', 1), (''toString'', 0),
      (''valueOf'', 0), (''toLocaleString'', 0)]"

definition getProp :: "(string \<rightharpoonup> 'v) \<Rightarrow> string \<Rightarrow> 'v Lookup" where
  "getProp obj key =
     (if key = ''__proto__'' then Inherited None
      else case obj key of
        Some v \<Rightarrow> Own v
      | None \<Rightarrow> (case map_of objectPrototype key of
                   Some arity \<Rightarrow> Inherited (Some arity)
                 | None \<Rightarrow> Undefined))"

text \<open>\<open>obj[key] = v\<close> for a boolean \<open>v\<close>: the setter behind \<open>__proto__\<close> ignores a
  value that is not an object; every other key becomes an own property.\<close>

definition setPrimitive :: "(string \<rightharpoonup> 'v) \<Rightarrow> string \<Rightarrow> 'v \<Rightarrow> (string \<rightharpoonup> 'v)" where
  "setPrimitive obj key v = (if key = ''__proto__'' then obj else obj(key \<mapsto> v))"

text \<open>The exception of a call of a member that is not a function, with the member's
  name; and a value that may be \<open>null\<close> or \<open>undefined\<close>.\<close>

datatype JsError = TypeError string


subsection \<open>Numbers\<close>

text \<open>
  A quotient or product of JavaScript numbers is the exact result rounded to the nearest
  double, ties to the even significand. \<open>roundDouble\<close> is that rounding for zero and for
  magnitudes in the normal range of doubles, where all values computed here lie: the
  significand has 53 bits, so the exact value is rounded at the bit \<open>2 ^ (e - 52)\<close> for
  the exponent \<open>e\<close> of its leading bit.
\<close>

definition roundEven :: "real \<Rightarrow> int" where
  "roundEven q =
     (let f = \<lfloor>q\<rfloor>; d = q - of_int f
      in if d < 1 / 2 then f else if d > 1 / 2 then f + 1 else if even f then f else f + 1)"

definition roundDouble :: "real \<Rightarrow> real" where
  "roundDouble x =
     (if x = 0 then 0
      else (let e = \<lfloor>log 2 \<bar>x\<bar>\<rfloor> - 52
            in sgn x * of_int (roundEven (\<bar>x\<bar> / 2 powr of_int e)) * 2 powr of_int e))"

definition jsDivide :: "real \<Rightarrow> real \<Rightarrow> real" where
  "jsDivide a b = roundDouble (a / b)"

definition jsTimes :: "real \<Rightarrow> real \<Rightarrow> real" where
  "jsTimes a b = roundDouble (a * b)"

section \<open>PingHandler (handlers/ping.ts)\<close>

text \<open>
  The directory \<open>storagePath\<close> as \<open>readdir\<close> lists it: file names with what reading
  and parsing the file gives, a JSON array of results or a failure (a file that cannot
  be read, or text that \<open>JSON.parse\<close> rejects). The handler writes arrays of results
  only; a file that holds another JSON value is outside the model. \<open>Unknown\<close> is a directory the model no
  longer describes: it is the state after a write whose path is not a plain file name
  of the directory.
\<close>

datatype FileContent = Json "PingResult list" | Unreadable

datatype Directory = Files "(string \<times> FileContent) list" | Unknown

text \<open>
  The handler's fields that the monitoring loop reads and writes, together with the
  directory it owns. The maps hold the own properties of the two dictionaries. A write
  to a plain file name is modelled as succeeding.
\<close>

record PingHandler =
  targets :: "PingTarget list"
  results :: "string \<rightharpoonup> PingResult list"
  lastNotifiedStatus :: "string \<rightharpoonup> bool"
  slowResponseThreshold :: int
  discordWebhookUrl :: "string option"
  storage :: Directory

definition maxResultsPerTarget :: int where
  "maxResultsPerTarget = 1000"

text \<open>The state the constructor builds, before \<open>initialize\<close>.\<close>

definition newPingHandler :: "string option \<Rightarrow> int \<Rightarrow> Directory \<Rightarrow> PingHandler" where
  "newPingHandler webhook threshold dir =
     \<lparr>targets = [], results = Map.empty, lastNotifiedStatus = Map.empty,
      slowResponseThreshold = threshold, discordWebhookUrl = webhook, storage = dir\<rparr>"

subsection \<open>Startup\<close>

text \<open>
  \<open>loadStoredResults\<close>: every file whose name ends with \<open>.json\<close> is loaded under the
  name without its first \<open>.json\<close>. The \<open>try\<close> encloses the whole loop, so the first
  file that fails to read or parse ends the loading. Assigning a loaded array to
  \<open>results['__proto__']\<close> replaces the prototype of \<open>results\<close>; lookups in such an
  object are not described by \<open>getProp\<close>, and the model stops there with
  \<open>PrototypeReplaced\<close>, as it stops with \<open>UnknownDirectory\<close> on a directory it does not
  describe.
\<close>

datatype NotModelled = PrototypeReplaced | UnknownDirectory

fun loadFiles :: "(string \<times> FileContent) list \<Rightarrow> PingHandler \<Rightarrow> NotModelled + PingHandler" where
  "loadFiles [] h = Inr h"
| "loadFiles ((fname, content) # files) h =
     (if endsWith fname ''.json'' then
        (let targetId = removeFirst ''.json'' fname
         in case content of
              Unreadable \<Rightarrow> Inr h
            | Json data \<Rightarrow>
                if targetId = ''__proto__'' then Inl PrototypeReplaced
                else
                  (let h1 = h\<lparr>results := (results h)(targetId \<mapsto> data)\<rparr>;
                       h2 = (if length data > 0
                             then h1\<lparr>lastNotifiedStatus :=
                                       setPrimitive (lastNotifiedStatus h1) targetId
                                         (isUp (last data))\<rparr>
                             else h1)
                   in loadFiles files h2))
      else loadFiles files h)"

definition loadStoredResults :: "PingHandler \<Rightarrow> NotModelled + PingHandler" where
  "loadStoredResults h =
     (case storage h of Unknown \<Rightarrow> Inl UnknownDirectory | Files files \<Rightarrow> loadFiles files h)"

subsection \<open>Notifications\<close>

datatype NotificationType = Up | Down | Slow | InitialUp | InitialDown

record Notification =
  ntype :: NotificationType
  ntarget :: PingTarget
  nresult :: PingResult

text \<open>\<open>sendDiscordNotification\<close> posts one embed to the webhook; the model returns the
  list of posts it attempts (delivery failures are logged and ignored by the source).\<close>

definition sendDiscordNotification :: "PingHandler \<Rightarrow> Notification \<Rightarrow> Notification list" where
  "sendDiscordNotification h n = (if \<not> truthy (discordWebhookUrl h) then [] else [n])"

text \<open>\<open>checkForNotifications\<close> returns the posts it made and the updated handler. An
  inherited member as previous status is neither \<open>undefined\<close> nor \<open>false\<close>, and is
  truthy.\<close>

definition checkForNotifications ::
  "PingHandler \<Rightarrow> PingTarget \<Rightarrow> PingResult \<Rightarrow> Notification list \<times> PingHandler" where
  "checkForNotifications h target result =
     (if \<not> truthy (discordWebhookUrl h) then ([], h)
      else case getProp (lastNotifiedStatus h) (target_id target) of
        Undefined \<Rightarrow>
          (sendDiscordNotification h
             \<lparr>ntype = (if isUp result then InitialUp else InitialDown),
              ntarget = target, nresult = result\<rparr>,
           h\<lparr>lastNotifiedStatus :=
               setPrimitive (lastNotifiedStatus h) (target_id target) (isUp result)\<rparr>)
      | Own previousStatus \<Rightarrow>
          if previousStatus \<and> \<not> isUp result then
            (sendDiscordNotification h \<lparr>ntype = Down, ntarget = target, nresult = result\<rparr>,
             h\<lparr>lastNotifiedStatus :=
                 setPrimitive (lastNotifiedStatus h) (target_id target) False\<rparr>)
          else if previousStatus = False \<and> isUp result then
            (sendDiscordNotification h \<lparr>ntype = Up, ntarget = target, nresult = result\<rparr>,
             h\<lparr>lastNotifiedStatus :=
                 setPrimitive (lastNotifiedStatus h) (target_id target) True\<rparr>)
          else if isUp result \<and> responseTime result > slowResponseThreshold h then
            (sendDiscordNotification h \<lparr>ntype = Slow, ntarget = target, nresult = result\<rparr>, h)
          else ([], h)
      | Inherited member \<Rightarrow>
          if \<not> isUp result then
            (sendDiscordNotification h \<lparr>ntype = Down, ntarget = target, nresult = result\<rparr>,
             h\<lparr>lastNotifiedStatus :=
                 setPrimitive (lastNotifiedStatus h) (target_id target) False\<rparr>)
          else if isUp result \<and> responseTime result > slowResponseThreshold h then
            (sendDiscordNotification h \<lparr>ntype = Slow, ntarget = target, nresult = result\<rparr>, h)
          else ([], h))"

subsection \<open>Result lists\<close>

text \<open>\<open>addResult\<close>: an inherited member is truthy, so no list is created for it, and it
  has no \<open>push\<close>.\<close>

definition addResult :: "PingHandler \<Rightarrow> string \<Rightarrow> PingResult \<Rightarrow> JsError + PingHandler" where
  "addResult h targetId result =
     (case getProp (results h) targetId of
        Inherited member \<Rightarrow> Inl (TypeError ''push'')
      | found \<Rightarrow>
          (let pushed = (case found of Own rs \<Rightarrow> rs | _ \<Rightarrow> []) @ [result];
               kept = (if int (length pushed) > maxResultsPerTarget
                       then slice pushed (- maxResultsPerTarget) else pushed)
           in Inr (h\<lparr>results := (results h)(targetId \<mapsto> kept)\<rparr>)))"

text \<open>
  \<open>saveResults\<close> writes \<open>JSON.stringify(this.results[targetId])\<close> to
  \<open>path.join(storagePath, targetId + '.json')\<close> and swallows a failure. For a missing
  list and for an inherited function the text is \<open>undefined\<close> and the write is refused.
  A target id without a path separator and without a NUL character names a file of the
  directory; any other path, and the text \<open>{}\<close> of the prototype object, leave the
  directory \<open>Unknown\<close>.
\<close>

definition fileNameSafe :: "string \<Rightarrow> bool" where
  "fileNameSafe targetId \<longleftrightarrow> CHR ''/'' \<notin> set targetId \<and> CHR 0x00 \<notin> set targetId"

definition writeTo :: "Directory \<Rightarrow> string \<Rightarrow> PingResult list \<Rightarrow> Directory" where
  "writeTo dir targetId rs =
     (case dir of
        Unknown \<Rightarrow> Unknown
      | Files files \<Rightarrow>
          if fileNameSafe targetId then Files (writeFile (targetId @ ''.json'') (Json rs) files)
          else Unknown)"

definition saveResults :: "PingHandler \<Rightarrow> string \<Rightarrow> PingHandler" where
  "saveResults h targetId =
     (case getProp (results h) targetId of
        Own rs \<Rightarrow> h\<lparr>storage := writeTo (storage h) targetId rs\<rparr>
      | Undefined \<Rightarrow> h
      | Inherited member \<Rightarrow> (if member = None then h\<lparr>storage := Unknown\<rparr> else h))"

text \<open>\<open>getResultsForTarget\<close> returns \<open>this.results[targetId] || []\<close>: the list, the empty
  list, or the inherited member.\<close>

definition getResultsForTarget :: "PingHandler \<Rightarrow> string \<Rightarrow> PingResult list Lookup" where
  "getResultsForTarget h targetId =
     (case getProp (results h) targetId of Undefined \<Rightarrow> Own [] | found \<Rightarrow> found)"


text \<open>
  The body of the loop of \<open>pingAllTargets\<close> once the probe has returned \<open>result\<close>: the
  posts made, the handler afterwards, and the exception that left the loop, if any.
  Only \<open>addResult\<close> can raise; the handler is then as it was.
\<close>

definition processResult ::
  "PingHandler \<Rightarrow> PingTarget \<Rightarrow> PingResult \<Rightarrow> Notification list \<times> PingHandler \<times> JsError option" where
  "processResult h target result =
     (case addResult h (target_id target) result of
        Inl e \<Rightarrow> ([], h, Some e)
      | Inr h1 \<Rightarrow>
          (case checkForNotifications (saveResults h1 (target_id target)) target result of
             (posts, h2) \<Rightarrow> (posts, h2, None)))"

text \<open>A run of the monitoring loop over the probe results in the order they arrive, up
  to the first exception: the posts made, in order, the final handler, and the exception.\<close>

fun processAll ::
  "PingHandler \<Rightarrow> (PingTarget \<times> PingResult) list \<Rightarrow> Notification list \<times> PingHandler \<times> JsError option" where
  "processAll h [] = ([], h, None)"
| "processAll h ((target, result) # rest) =
     (case processResult h target result of
        (posts, h1, Some e) \<Rightarrow> (posts, h1, Some e)
      | (posts, h1, None) \<Rightarrow>
          (case processAll h1 rest of (posts', h2, e) \<Rightarrow> (posts @ posts', h2, e)))"

subsection \<open>Probing\<close>

text \<open>
  What the network does during one probe is an input of the model. For an HTTP probe:
  the promise executor throws before any request is on the wire (\<open>new URL\<close> rejects
  the target's url, or \<open>request\<close> rejects the options); the response arrives and
  ends; the request emits \<open>error\<close> before a response (connection refused, DNS
  failure, reset); it emits \<open>timeout\<close>; or a response starts and its \<open>end\<close> is never
  emitted (the connection is cut after the headers, or the body keeps trickling), in
  which case no handler settles the promise. Elapsed times are the differences of
  \<open>Date.now()\<close> readings.
\<close>

datatype HttpOutcome =
    Threw string
  | Responded "int option" "string option" int
  | RequestError int
  | TimedOut
  | Stalled

text \<open>For a reachability probe: the \<open>ping\<close> command exits normally with its standard
  output after some time, or \<open>execAsync\<close> rejects (non-zero exit, command missing).\<close>

datatype IcmpOutcome = ExecOk string int | ExecFailed

text \<open>\<open>httpPing\<close> returns a promise: \<open>None\<close> is a promise that stays pending,
  \<open>Some (Inl msg)\<close> its rejection with the error's message, \<open>Some (Inr r)\<close> the resolved
  \<open>{isUp, responseTime, statusCode, serverInfo}\<close>.\<close>

definition httpPing ::
  "PingTarget \<Rightarrow> HttpOutcome \<Rightarrow> (string + (bool \<times> int \<times> int \<times> string)) option" where
  "httpPing target outcome =
     (case outcome of
        Threw msg \<Rightarrow> Some (Inl msg)
      | Responded code server elapsed \<Rightarrow>
          Some (Inr ((case code of None \<Rightarrow> False | Some c \<Rightarrow> c < 400),
                     elapsed,
                     (case code of None \<Rightarrow> 0 | Some c \<Rightarrow> c),
                     (case server of None \<Rightarrow> [] | Some s \<Rightarrow> s)))
      | RequestError elapsed \<Rightarrow> Some (Inr (False, elapsed, 0, []))
      | TimedOut \<Rightarrow>
          Some (Inr (False,
                     (case timeout target of None \<Rightarrow> 5000 | Some t \<Rightarrow> if t = 0 then 5000 else t),
                     0, []))
      | Stalled \<Rightarrow> None)"

text \<open>\<open>icmpPing\<close> catches everything itself and resolves to \<open>{isUp, responseTime}\<close>.\<close>

definition icmpPing :: "string \<Rightarrow> IcmpOutcome \<Rightarrow> bool \<times> int" where
  "icmpPing host outcome =
     (case outcome of
        ExecOk stdout elapsed \<Rightarrow>
          (includes_str stdout ''TTL='' \<or> includes_str stdout ''ttl='' \<or>
           includes_str stdout ''time='' \<or> includes_str stdout ''time<'', elapsed)
      | ExecFailed \<Rightarrow> (False, 0))"

text \<open>\<open>pingTarget\<close>: the locals start at their defaults, the probe's fields overwrite
  them, and the \<open>catch\<close> stores the message of whatever the probe threw. \<open>now\<close> is the
  reading of \<open>Date.now()\<close> when the result is built. \<open>None\<close>: the awaited promise stays
  pending and \<open>pingTarget\<close> does not return.\<close>

definition pingTarget ::
  "PingTarget \<Rightarrow> HttpOutcome \<Rightarrow> IcmpOutcome \<Rightarrow> int \<Rightarrow> PingResult option" where
  "pingTarget target http ping now =
     (if target_method target = icmp then
        (case icmpPing (url target) ping of
           (up, rt) \<Rightarrow>
             Some \<lparr>timestamp = now, isUp = up, responseTime = rt, statusCode = 0,
                   serverInfo = [], error = []\<rparr>)
      else
        (case httpPing target http of
           None \<Rightarrow> None
         | Some (Inr (up, rt, code, server)) \<Rightarrow>
             Some \<lparr>timestamp = now, isUp = up, responseTime = rt, statusCode = code,
                   serverInfo = server, error = []\<rparr>
         | Some (Inl msg) \<Rightarrow>
             Some \<lparr>timestamp = now, isUp = False, responseTime = 0, statusCode = 0,
                   serverInfo = [], error = msg\<rparr>))"

subsection \<open>Statistics\<close>

text \<open>\<open>calculateUptimePercentage\<close>: an inherited member passes the guard unless its
  \<open>length\<close> is 0, and has no \<open>filter\<close>.\<close>

definition calculateUptimePercentage ::
  "PingHandler \<Rightarrow> int \<Rightarrow> string \<Rightarrow> int \<Rightarrow> JsError + real" where
  "calculateUptimePercentage h now targetId days =
     (case getProp (results h) targetId of
        Undefined \<Rightarrow> Inr 0
      | Inherited member \<Rightarrow> if member = Some 0 then Inr 0 else Inl (TypeError ''filter'')
      | Own targetResults \<Rightarrow>
          if length targetResults = 0 then Inr 0
          else
            (let cutoffTime = now - days * 24 * 60 * 60 * 1000;
                 recentResults = filter (\<lambda>result. timestamp result \<ge> cutoffTime) targetResults
             in if length recentResults = 0 then Inr 0
                else
                  (let upCount = length (filter (\<lambda>result. isUp result) recentResults)
                   in Inr (jsTimes (jsDivide (real upCount) (real (length recentResults)))
                             100))))"

text \<open>The specification's wording of the same quantity: the results of the target
  whose timestamp lies in the window, the share of them that are up, times 100, and 0
  for an empty window; quotient and product are those of the numbers of the code.\<close>

definition storedResults :: "PingHandler \<Rightarrow> string \<Rightarrow> PingResult list" where
  "storedResults h targetId = (case results h targetId of None \<Rightarrow> [] | Some rs \<Rightarrow> rs)"

definition inWindow :: "PingHandler \<Rightarrow> int \<Rightarrow> string \<Rightarrow> int \<Rightarrow> PingResult list" where
  "inWindow h now targetId days =
     filter (\<lambda>r. timestamp r \<ge> now - days * 86400000) (storedResults h targetId)"

definition uptimeSpec :: "PingResult list \<Rightarrow> real" where
  "uptimeSpec window =
     (if window = [] then 0
      else jsTimes (jsDivide (real (length (filter isUp window))) (real (length window))) 100)"

subsection \<open>Vocabulary of the properties\<close>

text \<open>The availability announcements (\<open>up\<close> and \<open>down\<close>) among the posts made for
  one target, in the order they were made.\<close>

definition transitions :: "string \<Rightarrow> Notification list \<Rightarrow> NotificationType list" where
  "transitions tid posts =
     filter (\<lambda>k. k = Up \<or> k = Down)
       (map ntype (filter (\<lambda>n. target_id (ntarget n) = tid) posts))"

text \<open>All availability announcements for one target, the first-check ones included,
  as the availability they announce; \<open>slow\<close> posts are left out.\<close>

definition announcements :: "string \<Rightarrow> Notification list \<Rightarrow> bool list" where
  "announcements tid posts =
     map (\<lambda>k. k = Up \<or> k = InitialUp)
       (filter (\<lambda>k. k \<noteq> Slow)
          (map ntype (filter (\<lambda>n. target_id (ntarget n) = tid) posts)))"

definition slowPost :: "PingTarget \<Rightarrow> PingResult \<Rightarrow> Notification" where
  "slowPost target result = \<lparr>ntype = Slow, ntarget = target, nresult = result\<rparr>"

text \<open>A target id for which \<open>addResult\<close> finds a list of its own or nothing.\<close>

definition canAppend :: "PingHandler \<Rightarrow> string \<Rightarrow> bool" where
  "canAppend h targetId \<longleftrightarrow>
     (case getProp (results h) targetId of Inherited member \<Rightarrow> False | _ \<Rightarrow> True)"

text \<open>A sequence of appends to the result lists, each to the series of some target, up
  to the first exception; and the results among them that went to one target.\<close>

fun addResults :: "PingHandler \<Rightarrow> (string \<times> PingResult) list \<Rightarrow> JsError + PingHandler" where
  "addResults h [] = Inr h"
| "addResults h ((targetId, result) # appends) =
     (case addResult h targetId result of
        Inl e \<Rightarrow> Inl e
      | Inr h1 \<Rightarrow> addResults h1 appends)"

definition appendedTo :: "string \<Rightarrow> (string \<times> PingResult) list \<Rightarrow> PingResult list" where
  "appendedTo tid appends = map snd (filter (\<lambda>a. fst a = tid) appends)"

definition mostRecent :: "nat \<Rightarrow> 'a list \<Rightarrow> 'a list" where
  "mostRecent n xs = drop (length xs - n) xs"

text \<open>The failure modes of a probe: for an HTTP probe an exception before the request
  is sent, a connection-level error before a response, a timeout, a complete response
  whose status is missing or at least 400, or a response that never completes; for a
  reachability probe a \<open>ping\<close> command that fails.\<close>

definition probeFailed :: "PingTarget \<Rightarrow> HttpOutcome \<Rightarrow> IcmpOutcome \<Rightarrow> bool" where
  "probeFailed target http ping =
     (if target_method target = icmp then
        (case ping of ExecFailed \<Rightarrow> True | ExecOk stdout elapsed \<Rightarrow> False)
      else
        (case http of
           Threw msg \<Rightarrow> True
         | Responded code server elapsed \<Rightarrow> (case code of None \<Rightarrow> True | Some c \<Rightarrow> c \<ge> 400)
         | RequestError elapsed \<Rightarrow> True
         | TimedOut \<Rightarrow> True
         | Stalled \<Rightarrow> True))"

text \<open>The message of the exception that reaches the \<open>catch\<close> of \<open>pingTarget\<close>, if any.\<close>

definition thrownMessage :: "PingTarget \<Rightarrow> HttpOutcome \<Rightarrow> string option" where
  "thrownMessage target http =
     (if target_method target = icmp then None
      else case http of Threw msg \<Rightarrow> Some msg | _ \<Rightarrow> None)"



section \<open>HistoryHandler (handlers/history.ts)\<close>

text \<open>
  The handler's fields and the directory \<open>cacheDir\<close> it owns, which maps a run number
  \<open>n\<close> to the content of \<open>run-\<langle>n\<rangle>.json\<close>. The directory holds only files the
  handler wrote, and writes are modelled on their success path.
\<close>

record HistoryHandler =
  currentRunNumber :: nat
  entriesInCurrentFile :: nat
  statusHistory :: "SystemStatus list"
  cacheDir :: "(nat \<times> SystemStatus list) list"

definition maxEntriesPerFile :: nat where
  "maxEntriesPerFile = 700"

definition newHistoryHandler :: "(nat \<times> SystemStatus list) list \<Rightarrow> HistoryHandler" where
  "newHistoryHandler files =
     \<lparr>currentRunNumber = 1, entriesInCurrentFile = 0, statusHistory = [], cacheDir = files\<rparr>"

text \<open>\<open>findLatestRunNumber\<close>; the \<open>None\<close> branch is the \<open>catch\<close> of a failed read.\<close>

definition findLatestRunNumber :: "HistoryHandler \<Rightarrow> HistoryHandler" where
  "findLatestRunNumber h =
     (let runFiles = map fst (cacheDir h)
      in if length runFiles > 0 then
           (let latest = Max (set runFiles)
            in case map_of (cacheDir h) latest of
                 None \<Rightarrow> h\<lparr>currentRunNumber := 1, entriesInCurrentFile := 0\<rparr>
               | Some entries \<Rightarrow>
                   (let h1 = h\<lparr>currentRunNumber := latest, statusHistory := entries,
                               entriesInCurrentFile := length entries\<rparr>
                    in if entriesInCurrentFile h1 \<ge> maxEntriesPerFile
                       then h1\<lparr>currentRunNumber := currentRunNumber h1 + 1,
                               entriesInCurrentFile := 0\<rparr>
                       else h1))
         else h)"

definition initialize :: "HistoryHandler \<Rightarrow> HistoryHandler" where
  "initialize h = findLatestRunNumber h"

definition saveCache :: "HistoryHandler \<Rightarrow> HistoryHandler" where
  "saveCache h = h\<lparr>cacheDir := writeFile (currentRunNumber h) (statusHistory h) (cacheDir h)\<rparr>"

definition addStatus :: "HistoryHandler \<Rightarrow> SystemStatus \<Rightarrow> HistoryHandler" where
  "addStatus h status =
     (let h1 = h\<lparr>statusHistory := statusHistory h @ [status],
                 entriesInCurrentFile := entriesInCurrentFile h + 1\<rparr>
      in if entriesInCurrentFile h1 \<ge> maxEntriesPerFile then
           (saveCache h1)\<lparr>statusHistory := [status], entriesInCurrentFile := 1,
                          currentRunNumber := currentRunNumber h1 + 1\<rparr>
         else saveCache h1)"

definition addAll :: "HistoryHandler \<Rightarrow> SystemStatus list \<Rightarrow> HistoryHandler" where
  "addAll h statuses = foldl addStatus h statuses"

definition getLatestStatus :: "HistoryHandler \<Rightarrow> SystemStatus option" where
  "getLatestStatus h =
     (if length (statusHistory h) = 0 then None else Some (last (statusHistory h)))"

text \<open>\<open>loadAllHistory\<close>: the run files sorted by their number, concatenated.\<close>

definition loadAllHistory :: "HistoryHandler \<Rightarrow> SystemStatus list" where
  "loadAllHistory h = concat (map snd (sort_key fst (cacheDir h)))"

text \<open>\<open>getHistory\<close>, the system history it returns (with \<open>includePing\<close> the same list
  is returned beside the ping data).\<close>

definition getHistory :: "HistoryHandler \<Rightarrow> int \<Rightarrow> int \<Rightarrow> int \<Rightarrow> SystemStatus list" where
  "getHistory h now days count =
     (let cutoff = now - days * 24 * 60 * 60 * 1000;
          allHistory = filter (\<lambda>status. timestamp status \<ge> cutoff) (loadAllHistory h)
      in slice allHistory (- count))"

subsection \<open>Vocabulary of the properties\<close>

text \<open>The persisted chunks in ascending run number.\<close>

definition chunks :: "HistoryHandler \<Rightarrow> SystemStatus list list" where
  "chunks h = map snd (sort_key fst (cacheDir h))"

text \<open>The chunks joined with the first record of every chunk after the first left out.\<close>

fun joinChunks :: "'a list list \<Rightarrow> 'a list" where
  "joinChunks [] = []"
| "joinChunks (c # cs) = c @ concat (map tl cs)"

text \<open>The shape of a handler that started on an empty directory: the sealed chunks
  \<open>sealed\<close> are files 1, 2, ... and the open chunk \<open>opened\<close> is the next file, on disk
  once it has been saved.\<close>

definition numbered :: "'a list \<Rightarrow> (nat \<times> 'a) list" where
  "numbered cs = zip [1..<Suc (length cs)] cs"

definition persisted :: "'a list list \<Rightarrow> 'a list \<Rightarrow> bool" where
  "persisted sealed opened \<longleftrightarrow> (sealed = [] \<and> opened \<noteq> []) \<or> 2 \<le> length opened"

definition layout :: "SystemStatus list list \<Rightarrow> SystemStatus list \<Rightarrow> HistoryHandler" where
  "layout sealed opened =
     \<lparr>currentRunNumber = Suc (length sealed),
      entriesInCurrentFile = length opened,
      statusHistory = opened,
      cacheDir = numbered sealed @
        (if persisted sealed opened then [(Suc (length sealed), opened)] else [])\<rparr>"

section \<open>Sample inputs\<close>

text \<open>The target that \<open>cli.ts\<close> writes into a fresh \<open>ping.json\<close>, and plain probe
  results and status samples to run the definitions on.\<close>

definition google :: PingTarget where
  "google = \<lparr>target_id = ''google'', name = ''Google'', url = ''https://www.google.com'',
             target_method = GET, timeout = Some 5000, headers = None, expectedStatus = None\<rparr>"

definition probed :: "int \<Rightarrow> bool \<Rightarrow> int \<Rightarrow> PingResult" where
  "probed ts up rt =
     \<lparr>timestamp = ts, isUp = up, responseTime = rt, statusCode = (if up then 200 else 0),
      serverInfo = [], error = []\<rparr>"

definition sample :: "nat \<Rightarrow> SystemStatus" where
  "sample n =
     \<lparr>timestamp = int n, uptime = 0, loadAverage = [0, 0, 0], freeMemory = 0,
      totalMemory = 0, cpuUsage = 0, networkIn = 0, networkOut = 0\<rparr>"

definition webhook :: string where
  "webhook = ''https://discord.com/api/webhooks/1/x''"

text \<open>A handler after it has loaded a directory in which the last stored result of the
  target is up, with and without a webhook URL in the environment.\<close>

definition startedUp :: "string option \<Rightarrow> PingHandler" where
  "startedUp w =
     \<lparr>targets = [], results = [''google'' \<mapsto> [probed 0 True 50]],
      lastNotifiedStatus = [''google'' \<mapsto> True], slowResponseThreshold = 1000,
      discordWebhookUrl = w, storage = Files [(''google.json'', Json [probed 0 True 50])]\<rparr>"

text \<open>The scenario of a target that goes up, down, up and slow, and down again.\<close>

definition flapping :: "(PingTarget \<times> PingResult) list" where
  "flapping =
     [(google, probed 0 True 50), (google, probed 1 False 0), (google, probed 2 True 1500),
      (google, probed 3 True 1500), (google, probed 4 False 0)]"

text \<open>Three up results and one down result of one target, and a handler that holds
  them.\<close>

definition fourResults :: "PingResult list" where
  "fourResults =
     [probed 10 True 50, probed 20 False 0, probed 30 True 60, probed 40 True 70]"

definition fourProbes :: PingHandler where
  "fourProbes = (newPingHandler None 1000 (Files []))\<lparr>results := [''google'' \<mapsto> fourResults]\<rparr>"

text \<open>A full chunk of status samples, numbered from 1.\<close>

definition fullChunk :: "SystemStatus list" where
  "fullChunk = map sample [1..<701]"

section \<open>File names and target ids\<close>













section \<open>Lookups\<close>

lemma getProp_proto [simp]: "getProp obj ''__proto__'' = Inherited None"
  by (simp add: getProp_def)


lemma getProp_setPrimitive_same:
  "k \<noteq> ''__proto__'' \<Longrightarrow> getProp (setPrimitive obj k v) k = Own v"
  by (simp add: getProp_def setPrimitive_def)

lemma getProp_setPrimitive_other:
  "k \<noteq> j \<Longrightarrow> getProp (setPrimitive obj k v) j = getProp obj j"
  by (simp add: getProp_def setPrimitive_def)

lemma getProp_update_same: "k \<noteq> ''__proto__'' \<Longrightarrow> getProp (obj(k \<mapsto> v)) k = Own v"
  by (simp add: getProp_def)

lemma getProp_update_other: "k \<noteq> j \<Longrightarrow> getProp (obj(k \<mapsto> v)) j = getProp obj j"
  by (simp add: getProp_def)

section \<open>Frame lemmas\<close>

lemma addResult_frame:
  assumes "addResult h i r = Inr h1"
  shows "lastNotifiedStatus h1 = lastNotifiedStatus h"
    "discordWebhookUrl h1 = discordWebhookUrl h"
    "slowResponseThreshold h1 = slowResponseThreshold h"
    "storage h1 = storage h"
    "i \<noteq> ''__proto__''"
  using assms by (auto simp: addResult_def Let_def split: Lookup.splits)

lemma saveResults_frame [simp]:
  "lastNotifiedStatus (saveResults h i) = lastNotifiedStatus h"
  "discordWebhookUrl (saveResults h i) = discordWebhookUrl h"
  "slowResponseThreshold (saveResults h i) = slowResponseThreshold h"
  "results (saveResults h i) = results h"
  by (simp_all add: saveResults_def split: Lookup.splits)

lemma processResult_raise:
  "addResult h (target_id target) result = Inl e \<Longrightarrow>
   processResult h target result = ([], h, Some e)"
  by (simp add: processResult_def)

lemma processResult_ok:
  "addResult h (target_id target) result = Inr h1 \<Longrightarrow>
   processResult h target result =
     (fst (checkForNotifications (saveResults h1 (target_id target)) target result),
      snd (checkForNotifications (saveResults h1 (target_id target)) target result), None)"
  by (simp add: processResult_def split: prod.splits)

section \<open>Notification gate\<close>

text \<open>
  C10. Without a configured webhook URL, processing a probe result posts nothing and
  leaves the per-target notification state as it was; not even the first-check
  transition happens.
\<close>

theorem no_webhook_no_transition:
  "\<not> truthy (discordWebhookUrl h) \<Longrightarrow>
     checkForNotifications h target result = ([], h) \<and>
     fst (processResult h target result) = [] \<and>
     lastNotifiedStatus (fst (snd (processResult h target result))) = lastNotifiedStatus h"
proof (cases "addResult h (target_id target) result")
  case (Inl e)
  assume "\<not> truthy (discordWebhookUrl h)"
  then show ?thesis
    by (simp add: processResult_raise [OF Inl] checkForNotifications_def)
next
  case (Inr h1)
  assume "\<not> truthy (discordWebhookUrl h)"
  then show ?thesis
    using addResult_frame [OF Inr]
    by (simp add: processResult_ok [OF Inr] checkForNotifications_def)
qed

theorem no_webhook_no_transition_witness:
  "\<not> truthy (discordWebhookUrl (newPingHandler None 1000 (Files []))) \<and>
   checkForNotifications (newPingHandler None 1000 (Files [])) google (probed 0 True 50) =
     ([], newPingHandler None 1000 (Files [])) \<and>
   fst (processResult (newPingHandler None 1000 (Files [])) google (probed 0 True 50)) = [] \<and>
   lastNotifiedStatus
     (fst (snd (processResult (newPingHandler None 1000 (Files [])) google (probed 0 True 50))))
     = Map.empty"
  using no_webhook_no_transition [of "newPingHandler None 1000 (Files [])" google "probed 0 True 50"]
  by (simp add: newPingHandler_def)

section \<open>Notification state machine\<close>

lemma processAll_Cons:
  "fst (processAll h ((target, result) # rest)) =
     fst (processResult h target result) @
     (if snd (snd (processResult h target result)) = None
      then fst (processAll (fst (snd (processResult h target result))) rest) else [])"
  by (auto split: prod.splits option.splits)

lemma transitions_append:
  "transitions tid (xs @ ys) = transitions tid xs @ transitions tid ys"
  by (simp add: transitions_def)

lemma announcements_append:
  "announcements tid (xs @ ys) = announcements tid xs @ announcements tid ys"
  by (simp add: announcements_def)

lemma check_transitions:
  assumes "checkForNotifications h target result = (posts, h1)"
    and "target_id target \<noteq> ''__proto__''"
  shows "(transitions tid posts = [] \<and>
            getProp (lastNotifiedStatus h1) tid = getProp (lastNotifiedStatus h) tid)
       \<or> (transitions tid posts = [] \<and> getProp (lastNotifiedStatus h) tid = Undefined)
       \<or> (transitions tid posts = [Down] \<and>
            (getProp (lastNotifiedStatus h) tid = Own True \<or>
             (\<exists>m. getProp (lastNotifiedStatus h) tid = Inherited m)) \<and>
            getProp (lastNotifiedStatus h1) tid = Own False)
       \<or> (transitions tid posts = [Up] \<and> getProp (lastNotifiedStatus h) tid = Own False \<and>
            getProp (lastNotifiedStatus h1) tid = Own True)"
proof (cases "target_id target = tid")
  case False
  then show ?thesis using assms(1)
    by (auto simp: checkForNotifications_def sendDiscordNotification_def transitions_def
          getProp_setPrimitive_other split: if_splits Lookup.splits)
next
  case True
  then show ?thesis using assms
    by (auto simp: checkForNotifications_def sendDiscordNotification_def transitions_def
          getProp_setPrimitive_same split: if_splits Lookup.splits)
qed

lemma step_transitions:
  assumes "processResult h target result = (posts, h1, e)"
  shows "(transitions tid posts = [] \<and>
            getProp (lastNotifiedStatus h1) tid = getProp (lastNotifiedStatus h) tid)
       \<or> (transitions tid posts = [] \<and> getProp (lastNotifiedStatus h) tid = Undefined)
       \<or> (transitions tid posts = [Down] \<and>
            (getProp (lastNotifiedStatus h) tid = Own True \<or>
             (\<exists>m. getProp (lastNotifiedStatus h) tid = Inherited m)) \<and>
            getProp (lastNotifiedStatus h1) tid = Own False)
       \<or> (transitions tid posts = [Up] \<and> getProp (lastNotifiedStatus h) tid = Own False \<and>
            getProp (lastNotifiedStatus h1) tid = Own True)"
proof (cases "addResult h (target_id target) result")
  case (Inl err)
  with assms show ?thesis by (simp add: processResult_raise transitions_def)
next
  case (Inr h0)
  let ?h = "saveResults h0 (target_id target)"
  from assms have c: "checkForNotifications ?h target result = (posts, h1)"
    by (simp add: processResult_ok [OF Inr] prod_eq_iff)
  have same: "lastNotifiedStatus ?h = lastNotifiedStatus h"
    using addResult_frame(1) [OF Inr] by simp
  from check_transitions [OF c addResult_frame(5) [OF Inr], of tid] show ?thesis
    unfolding same .
qed

lemma processAll_alternates:
  "distinct_adj (transitions tid (fst (processAll h evs))) \<and>
   (transitions tid (fst (processAll h evs)) \<noteq> [] \<longrightarrow>
      (getProp (lastNotifiedStatus h) tid = Own True \<or>
       (\<exists>m. getProp (lastNotifiedStatus h) tid = Inherited m) \<longrightarrow>
         hd (transitions tid (fst (processAll h evs))) = Down) \<and>
      (getProp (lastNotifiedStatus h) tid = Own False \<longrightarrow>
         hd (transitions tid (fst (processAll h evs))) = Up))"
proof (induction evs arbitrary: h)
  case Nil
  show ?case by (simp add: transitions_def)
next
  case (Cons ev evs)
  obtain target result where ev: "ev = (target, result)" by (cases ev)
  obtain posts h1 e where st: "processResult h target result = (posts, h1, e)"
    by (cases "processResult h target result")
  let ?rest = "transitions tid (fst (processAll h1 evs))"
  show ?case
  proof (cases e)
    case (Some err)
    have "transitions tid (fst (processAll h (ev # evs))) = transitions tid posts"
      by (simp add: ev processAll_Cons st Some del: processAll.simps)
    with step_transitions [OF st, of tid] show ?thesis by auto
  next
    case None
    have unfold: "transitions tid (fst (processAll h (ev # evs))) = transitions tid posts @ ?rest"
      by (simp add: ev processAll_Cons st None transitions_append del: processAll.simps)
    note IH = Cons.IH [of h1]
    from step_transitions [OF st, of tid] show ?thesis
      unfolding unfold using IH
      by (auto simp: distinct_adj_Cons)
  qed
qed

lemma check_announcements:
  assumes "checkForNotifications h target result = (posts, h1)"
    and "target_id target \<noteq> ''__proto__''"
  shows "(announcements tid posts = [] \<and>
            getProp (lastNotifiedStatus h1) tid = getProp (lastNotifiedStatus h) tid)
       \<or> (\<exists>b. announcements tid posts = [b] \<and>
              getProp (lastNotifiedStatus h) tid \<noteq> Own b \<and>
              (b \<longrightarrow> (\<forall>m. getProp (lastNotifiedStatus h) tid \<noteq> Inherited m)) \<and>
              getProp (lastNotifiedStatus h1) tid = Own b)"
proof (cases "target_id target = tid")
  case False
  then show ?thesis using assms(1)
    by (auto simp: checkForNotifications_def sendDiscordNotification_def announcements_def
          getProp_setPrimitive_other split: if_splits Lookup.splits)
next
  case True
  then show ?thesis using assms
    by (auto simp: checkForNotifications_def sendDiscordNotification_def announcements_def
          getProp_setPrimitive_same split: if_splits Lookup.splits)
qed

lemma step_announcements:
  assumes "processResult h target result = (posts, h1, e)"
  shows "(announcements tid posts = [] \<and>
            getProp (lastNotifiedStatus h1) tid = getProp (lastNotifiedStatus h) tid)
       \<or> (\<exists>b. announcements tid posts = [b] \<and>
              getProp (lastNotifiedStatus h) tid \<noteq> Own b \<and>
              (b \<longrightarrow> (\<forall>m. getProp (lastNotifiedStatus h) tid \<noteq> Inherited m)) \<and>
              getProp (lastNotifiedStatus h1) tid = Own b)"
proof (cases "addResult h (target_id target) result")
  case (Inl err)
  with assms show ?thesis by (simp add: processResult_raise announcements_def)
next
  case (Inr h0)
  let ?h = "saveResults h0 (target_id target)"
  from assms have c: "checkForNotifications ?h target result = (posts, h1)"
    by (simp add: processResult_ok [OF Inr] prod_eq_iff)
  have same: "lastNotifiedStatus ?h = lastNotifiedStatus h"
    using addResult_frame(1) [OF Inr] by simp
  from check_announcements [OF c addResult_frame(5) [OF Inr], of tid] show ?thesis
    unfolding same .
qed

lemma processAll_announcements:
  "distinct_adj (announcements tid (fst (processAll h evs))) \<and>
   (announcements tid (fst (processAll h evs)) \<noteq> [] \<longrightarrow>
      getProp (lastNotifiedStatus h) tid \<noteq> Own (hd (announcements tid (fst (processAll h evs)))) \<and>
      (hd (announcements tid (fst (processAll h evs))) \<longrightarrow>
         (\<forall>m. getProp (lastNotifiedStatus h) tid \<noteq> Inherited m)))"
proof (induction evs arbitrary: h)
  case Nil
  show ?case by (simp add: announcements_def)
next
  case (Cons ev evs)
  obtain target result where ev: "ev = (target, result)" by (cases ev)
  obtain posts h1 e where st: "processResult h target result = (posts, h1, e)"
    by (cases "processResult h target result")
  let ?rest = "announcements tid (fst (processAll h1 evs))"
  show ?case
  proof (cases e)
    case (Some err)
    have "announcements tid (fst (processAll h (ev # evs))) = announcements tid posts"
      by (simp add: ev processAll_Cons st Some del: processAll.simps)
    with step_announcements [OF st, of tid] show ?thesis by auto
  next
    case None
    have unfold:
      "announcements tid (fst (processAll h (ev # evs))) = announcements tid posts @ ?rest"
      by (simp add: ev processAll_Cons st None announcements_append del: processAll.simps)
    note IH = Cons.IH [of h1]
    from step_announcements [OF st, of tid] show ?thesis
      unfolding unfold using IH
      by (auto simp: distinct_adj_Cons)
  qed
qed

text \<open>
  C3. For every target and every sequence of probe results processed in order, from
  any handler state, the \<open>up\<close> and \<open>down\<close> notifications posted for the target
  alternate: no two \<open>down\<close> without an \<open>up\<close> between them, and no two \<open>up\<close>
  without a \<open>down\<close> between them. The same holds when the first-check posts
  \<open>initial-up\<close> and \<open>initial-down\<close> are counted as \<open>up\<close> and \<open>down\<close>. A result
  whose append raises posts nothing and leaves the handler as it was.
\<close>

theorem no_repeated_transition_notification:
  "distinct_adj (transitions tid (fst (processAll h events))) \<and>
   distinct_adj (announcements tid (fst (processAll h events)))"
  using processAll_alternates [of tid h events] processAll_announcements [of tid h events]
  by simp

theorem no_repeated_transition_notification_witness:
  "distinct_adj
     (transitions ''google''
        (fst (processAll (newPingHandler (Some webhook) 1000 (Files [])) flapping))) \<and>
   distinct_adj
     (announcements ''google''
        (fst (processAll (newPingHandler (Some webhook) 1000 (Files [])) flapping))) \<and>
   map ntype (fst (processAll (newPingHandler (Some webhook) 1000 (Files [])) flapping)) =
     [InitialUp, Down, Up, Slow, Down]"
  using no_repeated_transition_notification
    [of "''google''" "newPingHandler (Some webhook) 1000 (Files [])" flapping]
  by (simp add: flapping_def processResult_def checkForNotifications_def
        sendDiscordNotification_def saveResults_def addResult_def newPingHandler_def
        getProp_def setPrimitive_def objectPrototype_def writeTo_def
        webhook_def google_def probed_def Let_def)

section \<open>Slow responses\<close>

lemma slow_step:
  assumes "truthy (discordWebhookUrl h)" "lastNotifiedStatus h (target_id target) = Some True"
    "isUp result" "responseTime result > slowResponseThreshold h"
  shows "checkForNotifications h target result = ([slowPost target result], h)"
  using assms
  by (simp add: checkForNotifications_def sendDiscordNotification_def slowPost_def getProp_def)

lemma canAppend_addResult:
  "canAppend h i \<Longrightarrow> \<exists>h1. addResult h i r = Inr h1"
  by (auto simp: canAppend_def addResult_def Let_def split: Lookup.splits)

lemma addResult_canAppend:
  "addResult h i r = Inr h1 \<Longrightarrow> canAppend h j \<Longrightarrow> canAppend h1 j"
  by (auto simp: canAppend_def addResult_def Let_def getProp_def split: Lookup.splits option.splits if_splits)

lemma slow_processResult:
  assumes "truthy (discordWebhookUrl h)" "lastNotifiedStatus h (target_id target) = Some True"
    "isUp result" "responseTime result > slowResponseThreshold h"
    "canAppend h (target_id target)"
  shows "\<exists>h1. processResult h target result = ([slowPost target result], h1, None) \<and>
           lastNotifiedStatus h1 = lastNotifiedStatus h \<and>
           discordWebhookUrl h1 = discordWebhookUrl h \<and>
           slowResponseThreshold h1 = slowResponseThreshold h \<and>
           canAppend h1 (target_id target)"
proof -
  from canAppend_addResult [OF assms(5)] obtain h0
    where a: "addResult h (target_id target) result = Inr h0" by blast
  let ?h = "saveResults h0 (target_id target)"
  note f = addResult_frame [OF a]
  have "checkForNotifications ?h target result = ([slowPost target result], ?h)"
    using assms(1-4) f by (intro slow_step) simp_all
  moreover have "canAppend ?h (target_id target)"
    using addResult_canAppend [OF a assms(5)] by (simp add: canAppend_def)
  ultimately show ?thesis using f by (simp add: processResult_ok [OF a])
qed

lemma processAll_step:
  "processResult h target result = (posts, h1, None) \<Longrightarrow>
   processAll h ((target, result) # rest) =
     (posts @ fst (processAll h1 rest), fst (snd (processAll h1 rest)),
      snd (snd (processAll h1 rest)))"
  by (simp split: prod.splits)

lemma slow_run:
  assumes "truthy (discordWebhookUrl h)" "lastNotifiedStatus h (target_id target) = Some True"
    "\<forall>r \<in> set rs. isUp r \<and> responseTime r > slowResponseThreshold h"
    "canAppend h (target_id target)"
  shows "fst (processAll h (map (Pair target) rs)) = map (slowPost target) rs \<and>
         lastNotifiedStatus (fst (snd (processAll h (map (Pair target) rs)))) = lastNotifiedStatus h"
  using assms
proof (induction rs arbitrary: h)
  case Nil
  then show ?case by simp
next
  case (Cons r rs)
  have r: "isUp r" "responseTime r > slowResponseThreshold h" using Cons.prems(3) by simp_all
  from slow_processResult [OF Cons.prems(1,2) r Cons.prems(4)] obtain h1 where
    st: "processResult h target r = ([slowPost target r], h1, None)" and
    same: "lastNotifiedStatus h1 = lastNotifiedStatus h" "discordWebhookUrl h1 = discordWebhookUrl h"
      "slowResponseThreshold h1 = slowResponseThreshold h" and
    can: "canAppend h1 (target_id target)"
    by blast
  have "fst (processAll h1 (map (Pair target) rs)) = map (slowPost target) rs \<and>
        lastNotifiedStatus (fst (snd (processAll h1 (map (Pair target) rs)))) = lastNotifiedStatus h1"
    using Cons.prems same can by (intro Cons.IH) simp_all
  then show ?case using same
    by (simp add: processAll_step [OF st] del: processAll.simps)
qed

lemma loadFiles_keeps_series:
  assumes "loadFiles files h = Inr h'"
    and "\<forall>i. lastNotifiedStatus h i \<noteq> None \<longrightarrow> results h i \<noteq> None \<and> i \<noteq> ''__proto__''"
  shows "\<forall>i. lastNotifiedStatus h' i \<noteq> None \<longrightarrow> results h' i \<noteq> None \<and> i \<noteq> ''__proto__''"
  using assms
proof (induction files arbitrary: h)
  case Nil
  then show ?case by simp
next
  case (Cons f files)
  obtain fname content where f: "f = (fname, content)" by (cases f)
  show ?case
  proof (cases "endsWith fname ''.json''")
    case False
    with Cons.prems f have "loadFiles files h = Inr h'" by simp
    from Cons.IH [OF this Cons.prems(2)] show ?thesis .
  next
    case True
    show ?thesis
    proof (cases content)
      case Unreadable
      with Cons.prems f True have "h' = h" by (simp add: Let_def)
      then show ?thesis using Cons.prems(2) by simp
    next
      case (Json data)
      let ?i = "removeFirst ''.json'' fname"
      let ?h1 = "h\<lparr>results := (results h)(?i \<mapsto> data)\<rparr>"
      let ?h2 = "if length data > 0
                 then ?h1\<lparr>lastNotifiedStatus :=
                           setPrimitive (lastNotifiedStatus ?h1) ?i (isUp (last data))\<rparr>
                 else ?h1"
      from Cons.prems(1) f True Json have ne: "?i \<noteq> ''__proto__''"
        by (auto simp: Let_def split: if_splits)
      with Cons.prems(1) f True Json have run: "loadFiles files ?h2 = Inr h'"
        by (simp add: Let_def)
      have "\<forall>i. lastNotifiedStatus ?h2 i \<noteq> None \<longrightarrow> results ?h2 i \<noteq> None \<and> i \<noteq> ''__proto__''"
        using Cons.prems(2) ne by (simp add: setPrimitive_def)
      from Cons.IH [OF run this] show ?thesis .
    qed
  qed
qed

lemma checkForNotifications_results [simp]:
  "results (snd (checkForNotifications h target result)) = results h"
  by (simp add: checkForNotifications_def split: Lookup.splits)

lemma checkForNotifications_touches:
  "i \<noteq> target_id target \<Longrightarrow>
   lastNotifiedStatus (snd (checkForNotifications h target result)) i = lastNotifiedStatus h i"
  by (simp add: checkForNotifications_def setPrimitive_def split: Lookup.splits)

lemma checkForNotifications_proto:
  "lastNotifiedStatus (snd (checkForNotifications h target result)) ''__proto__'' =
     lastNotifiedStatus h ''__proto__''"
  by (simp add: checkForNotifications_def setPrimitive_def split: Lookup.splits)

lemma processResult_keeps_series:
  assumes "processResult h target result = (posts, h', e)"
    and "\<forall>i. lastNotifiedStatus h i \<noteq> None \<longrightarrow> results h i \<noteq> None \<and> i \<noteq> ''__proto__''"
  shows "\<forall>i. lastNotifiedStatus h' i \<noteq> None \<longrightarrow> results h' i \<noteq> None \<and> i \<noteq> ''__proto__''"
proof (cases "addResult h (target_id target) result")
  case (Inl err)
  from processResult_raise [OF this] assms(1) have "h' = h" by simp
  then show ?thesis using assms(2) by simp
next
  case (Inr h1)
  let ?h = "saveResults h1 (target_id target)"
  note f = addResult_frame [OF Inr]
  from processResult_ok [OF Inr] assms(1)
  have h': "h' = snd (checkForNotifications ?h target result)" by simp
  have own: "results h1 (target_id target) \<noteq> None"
    using Inr by (auto simp: addResult_def Let_def split: Lookup.splits)
  have keep: "results h i \<noteq> None \<Longrightarrow> results h1 i \<noteq> None" for i
    using Inr by (auto simp: addResult_def Let_def split: Lookup.splits)
  show ?thesis
  proof (intro allI impI)
    fix i
    assume set: "lastNotifiedStatus h' i \<noteq> None"
    show "results h' i \<noteq> None \<and> i \<noteq> ''__proto__''"
    proof (cases "i = target_id target")
      case True
      then show ?thesis using own f h' by simp
    next
      case False
      with set h' f have "lastNotifiedStatus h i \<noteq> None"
        by (simp add: checkForNotifications_touches)
      with assms(2) have "results h i \<noteq> None \<and> i \<noteq> ''__proto__''" by blast
      then show ?thesis using keep h' by simp
    qed
  qed
qed

lemma processAll_keeps_series:
  assumes "\<forall>i. lastNotifiedStatus h i \<noteq> None \<longrightarrow> results h i \<noteq> None \<and> i \<noteq> ''__proto__''"
  shows "\<forall>i. lastNotifiedStatus (fst (snd (processAll h probes))) i \<noteq> None \<longrightarrow>
           results (fst (snd (processAll h probes))) i \<noteq> None \<and> i \<noteq> ''__proto__''"
  using assms
proof (induction probes arbitrary: h)
  case Nil
  then show ?case by simp
next
  case (Cons p probes)
  obtain target result where p: "p = (target, result)" by (cases p)
  obtain posts h1 e where st: "processResult h target result = (posts, h1, e)"
    by (cases "processResult h target result") auto
  note inv = processResult_keeps_series [OF st Cons.prems]
  show ?case
  proof (cases e)
    case None
    from Cons.IH [OF inv] show ?thesis
      using st None p by (simp add: processAll_step del: processAll.simps)
  next
    case (Some err)
    then show ?thesis using st p inv by simp
  qed
qed

text \<open>In every state that the handler reaches from its constructor by loading the
  directory and running the monitoring loop, a target with a notified state has a list
  of results of its own.\<close>

lemma notified_canAppend:
  assumes "loadStoredResults (newPingHandler w threshold dir) = Inr h0"
    and "lastNotifiedStatus (fst (snd (processAll h0 probes))) i = Some b"
  shows "canAppend (fst (snd (processAll h0 probes))) i"
proof -
  have "\<forall>i. lastNotifiedStatus (newPingHandler w threshold dir) i \<noteq> None \<longrightarrow>
          results (newPingHandler w threshold dir) i \<noteq> None \<and> i \<noteq> ''__proto__''"
    by (simp add: newPingHandler_def)
  moreover from assms(1) obtain files where
    "loadFiles files (newPingHandler w threshold dir) = Inr h0"
    by (auto simp: loadStoredResults_def split: Directory.splits)
  ultimately have "\<forall>i. lastNotifiedStatus h0 i \<noteq> None \<longrightarrow> results h0 i \<noteq> None \<and> i \<noteq> ''__proto__''"
    by (rule loadFiles_keeps_series [rotated])
  from processAll_keeps_series [OF this, of probes] assms(2)
  have "results (fst (snd (processAll h0 probes))) i \<noteq> None \<and> i \<noteq> ''__proto__''" by simp
  then show ?thesis by (auto simp: canAppend_def getProp_def)
qed

text \<open>A target whose list cannot be appended to ends the run at its first result.\<close>

lemma raise_processAll:
  "\<not> canAppend h (target_id target) \<Longrightarrow>
   processAll h ((target, result) # rest) = ([], h, Some (TypeError ''push''))"
  by (auto simp: canAppend_def processResult_def addResult_def split: Lookup.splits)

lemma startedUp_state:
  "lastNotifiedStatus (startedUp w) ''google'' = Some True"
  "discordWebhookUrl (startedUp w) = w"
  "slowResponseThreshold (startedUp w) = 1000"
  "canAppend (startedUp w) ''google''"
  "storage (startedUp w) = Files [(''google.json'', Json [probed 0 True 50])]"
  by (simp_all add: startedUp_def canAppend_def getProp_def)

lemma startedUp_loaded:
  "loadStoredResults (newPingHandler w 1000 (Files [(''google.json'', Json [probed 0 True 50])]))
     = Inr (startedUp w)"
  by (simp add: loadStoredResults_def newPingHandler_def startedUp_def endsWith_def
        suffix_to_prefix setPrimitive_def probed_def Let_def)

text \<open>
  C7, as the code has it. With a webhook URL configured: when the target's state is Up
  and the result is up with a response time above the threshold, \<open>slow\<close> is posted and
  the handler, its notified state included, is left as it was; so a run of slow results
  for a target whose list \<open>addResult\<close> can append to posts one \<open>slow\<close> per result and
  ends in the same notified state. In the states the handler reaches, every target
  with a notified state is such a target (\<open>notified_canAppend\<close>).
\<close>

theorem slow_notifies_and_keeps_state:
  assumes "truthy (discordWebhookUrl h)"
    and "lastNotifiedStatus h (target_id target) = Some True"
  shows "(isUp result \<and> responseTime result > slowResponseThreshold h \<longrightarrow>
            checkForNotifications h target result = ([slowPost target result], h)) \<and>
         ((\<forall>r \<in> set rs. isUp r \<and> responseTime r > slowResponseThreshold h) \<and>
          canAppend h (target_id target) \<longrightarrow>
            fst (processAll h (map (Pair target) rs)) = map (slowPost target) rs \<and>
            lastNotifiedStatus (fst (snd (processAll h (map (Pair target) rs))))
              = lastNotifiedStatus h)"
  using slow_step [OF assms] slow_run [OF assms] by blast

theorem slow_notifies_and_keeps_state_witness:
  "truthy (discordWebhookUrl (startedUp (Some webhook))) \<and>
   lastNotifiedStatus (startedUp (Some webhook)) (target_id google) = Some True \<and>
   isUp (probed 1 True 1500) \<and>
   responseTime (probed 1 True 1500) > slowResponseThreshold (startedUp (Some webhook)) \<and>
   canAppend (startedUp (Some webhook)) (target_id google) \<and>
   checkForNotifications (startedUp (Some webhook)) google (probed 1 True 1500) =
     ([slowPost google (probed 1 True 1500)], startedUp (Some webhook)) \<and>
   fst (processAll (startedUp (Some webhook))
          (map (Pair google) [probed 1 True 1500, probed 2 True 1600])) =
     [slowPost google (probed 1 True 1500), slowPost google (probed 2 True 1600)]"
proof -
  have 1: "truthy (discordWebhookUrl (startedUp (Some webhook)))"
    by (simp add: startedUp_state webhook_def)
  have 2: "lastNotifiedStatus (startedUp (Some webhook)) (target_id google) = Some True"
    by (simp add: startedUp_state google_def)
  have 3: "isUp (probed 1 True 1500)"
    "responseTime (probed 1 True 1500) > slowResponseThreshold (startedUp (Some webhook))"
    by (simp_all add: startedUp_state probed_def)
  have 4: "\<forall>r \<in> set [probed 1 True 1500, probed 2 True 1600].
             isUp r \<and> responseTime r > slowResponseThreshold (startedUp (Some webhook))"
    by (simp add: startedUp_state probed_def)
  have 5: "canAppend (startedUp (Some webhook)) (target_id google)"
    by (simp add: startedUp_state google_def)
  note t = slow_notifies_and_keeps_state
    [OF 1 2, of "probed 1 True 1500" "[probed 1 True 1500, probed 2 True 1600]"]
  from t 3 have a: "checkForNotifications (startedUp (Some webhook)) google (probed 1 True 1500) =
     ([slowPost google (probed 1 True 1500)], startedUp (Some webhook))" by blast
  from t 4 5 have b: "fst (processAll (startedUp (Some webhook))
          (map (Pair google) [probed 1 True 1500, probed 2 True 1600])) =
     map (slowPost google) [probed 1 True 1500, probed 2 True 1600]" by blast
  show ?thesis using 1 2 3 5 a b by simp
qed

text \<open>Without a webhook URL the same slow result in state Up posts nothing.\<close>

theorem slow_without_webhook_counterexample:
  "loadStoredResults (newPingHandler None 1000 (Files [(''google.json'', Json [probed 0 True 50])]))
     = Inr (startedUp None) \<and>
   lastNotifiedStatus (startedUp None) (target_id google) = Some True \<and>
   isUp (probed 1 True 1500) \<and>
   responseTime (probed 1 True 1500) > slowResponseThreshold (startedUp None) \<and>
   fst (checkForNotifications (startedUp None) google (probed 1 True 1500)) = []"
proof -
  have "lastNotifiedStatus (startedUp None) (target_id google) = Some True \<and>
        isUp (probed 1 True 1500) \<and>
        responseTime (probed 1 True 1500) > slowResponseThreshold (startedUp None) \<and>
        fst (checkForNotifications (startedUp None) google (probed 1 True 1500)) = []"
    by (simp add: startedUp_state checkForNotifications_def google_def probed_def)
  then show ?thesis using startedUp_loaded [of None] by blast
qed

section \<open>Notification state and the stored series\<close>








lemma checkForNotifications_frame [simp]:
  "results (snd (checkForNotifications h target result)) = results h"
  "storage (snd (checkForNotifications h target result)) = storage h"
  by (auto simp: checkForNotifications_def split: Lookup.splits)









text \<open>A target id that contains \<open>.json\<close>: its notified state is set after the first
  result, and a handler started on the directory afterwards has it unset, the list
  being loaded under another id.\<close>

lemma id_containing_json_not_reloaded:
  "lastNotifiedStatus
     (fst (snd (processResult (newPingHandler (Some webhook) 1000 (Files []))
                  (google\<lparr>target_id := ''api.json.v2''\<rparr>) (probed 0 True 50))))
     ''api.json.v2'' = Some True \<and>
   storage
     (fst (snd (processResult (newPingHandler (Some webhook) 1000 (Files []))
                  (google\<lparr>target_id := ''api.json.v2''\<rparr>) (probed 0 True 50))))
     = Files [(''api.json.v2.json'', Json [probed 0 True 50])] \<and>
   map_sum id (\<lambda>h. (lastNotifiedStatus h ''api.json.v2'', lastNotifiedStatus h ''api.v2.json''))
     (loadStoredResults
        (newPingHandler (Some webhook) 1000
           (Files [(''api.json.v2.json'', Json [probed 0 True 50])])))
     = Inr (None, Some True)"
  by (simp add: processResult_def checkForNotifications_def saveResults_def addResult_def
        sendDiscordNotification_def loadStoredResults_def writeFile_def writeTo_def
        fileNameSafe_def getProp_def setPrimitive_def objectPrototype_def endsWith_def
        suffix_to_prefix newPingHandler_def google_def probed_def maxResultsPerTarget_def
        webhook_def Let_def)

section \<open>Retention cap\<close>

lemma getResults_canAppend:
  "canAppend h tid \<Longrightarrow> getResultsForTarget h tid = Own (storedResults h tid)"
  by (auto simp: canAppend_def getResultsForTarget_def storedResults_def getProp_def
        split: Lookup.splits option.splits if_splits)

lemma slice_recent:
  "(if int (length xs) > maxResultsPerTarget then slice xs (- maxResultsPerTarget) else xs)
     = mostRecent (nat maxResultsPerTarget) xs"
  by (auto simp: slice_def mostRecent_def Let_def maxResultsPerTarget_def nat_diff_distrib)

lemma canAppend_cases:
  "canAppend h i \<Longrightarrow>
     (results h i = None \<and> getProp (results h) i = Undefined) \<or>
     (\<exists>rs. results h i = Some rs \<and> getProp (results h) i = Own rs)"
  by (auto simp: canAppend_def getProp_def split: option.splits if_splits)

lemma canAppend_update:
  "canAppend h j \<Longrightarrow> canAppend (h\<lparr>results := (results h)(i \<mapsto> rs)\<rparr>) j"
  by (auto simp: canAppend_def getProp_def split: option.splits if_splits)

lemma addResult_stored:
  assumes "canAppend h i"
  shows "\<exists>h1. addResult h i r = Inr h1 \<and>
           storedResults h1 i = mostRecent (nat maxResultsPerTarget) (storedResults h i @ [r]) \<and>
           (\<forall>j. j \<noteq> i \<longrightarrow> storedResults h1 j = storedResults h j) \<and>
           (\<forall>j. canAppend h j \<longrightarrow> canAppend h1 j)"
proof -
  let ?kept = "mostRecent (nat maxResultsPerTarget) (storedResults h i @ [r])"
  let ?h1 = "h\<lparr>results := (results h)(i \<mapsto> ?kept)\<rparr>"
  have "addResult h i r = Inr ?h1"
    using canAppend_cases [OF assms]
    by (auto simp: addResult_def Let_def slice_recent storedResults_def)
  moreover have "storedResults ?h1 i = ?kept" by (simp add: storedResults_def)
  moreover have "\<forall>j. j \<noteq> i \<longrightarrow> storedResults ?h1 j = storedResults h j"
    by (simp add: storedResults_def)
  moreover have "\<forall>j. canAppend h j \<longrightarrow> canAppend ?h1 j"
    using canAppend_update by blast
  ultimately show ?thesis by blast
qed

lemma mostRecent_length: "length (mostRecent n xs) = min n (length xs)"
  unfolding mostRecent_def length_drop by arith

lemma mostRecent_append:
  "mostRecent n (mostRecent n xs @ ys) = mostRecent n (xs @ ys)"
proof -
  have 1: "length xs - (length xs - n) + length ys - n + (length xs - n)
             = length xs + length ys - n" by arith
  have 2: "length xs - (length xs - n) + length ys - n - (length xs - (length xs - n))
             = length xs + length ys - n - length xs" by arith
  show ?thesis
    unfolding mostRecent_def drop_append drop_drop length_append length_drop 1 2 ..
qed

lemma appendedTo_Cons:
  "appendedTo tid ((i, r) # as) = (if i = tid then r # appendedTo tid as else appendedTo tid as)"
  by (simp add: appendedTo_def)

lemma addResults_stored:
  "list_all (\<lambda>a. canAppend h (fst a)) as \<Longrightarrow>
   \<exists>h'. addResults h as = Inr h' \<and>
     storedResults h' tid =
       (if appendedTo tid as = [] then storedResults h tid
        else mostRecent (nat maxResultsPerTarget) (storedResults h tid @ appendedTo tid as)) \<and>
     (canAppend h tid \<longrightarrow> canAppend h' tid)"
proof (induction as arbitrary: h)
  case Nil
  show ?case by (simp add: appendedTo_def)
next
  case (Cons a as)
  obtain i r where a: "a = (i, r)" by (cases a)
  from Cons.prems a have ci: "canAppend h i" and rest: "list_all (\<lambda>a. canAppend h (fst a)) as"
    by simp_all
  from addResult_stored [OF ci, of r] obtain h1 where
    h1: "addResult h i r = Inr h1" and
    same: "storedResults h1 i = mostRecent (nat maxResultsPerTarget) (storedResults h i @ [r])" and
    other: "\<forall>j. j \<noteq> i \<longrightarrow> storedResults h1 j = storedResults h j" and
    can: "\<forall>j. canAppend h j \<longrightarrow> canAppend h1 j"
    by blast
  from rest can have "list_all (\<lambda>a. canAppend h1 (fst a)) as"
    by (simp add: list_all_iff)
  from Cons.IH [OF this] obtain h' where
    h': "addResults h1 as = Inr h'" and
    st: "storedResults h' tid =
       (if appendedTo tid as = [] then storedResults h1 tid
        else mostRecent (nat maxResultsPerTarget) (storedResults h1 tid @ appendedTo tid as))" and
    can': "canAppend h1 tid \<longrightarrow> canAppend h' tid"
    by blast
  have run: "addResults h (a # as) = Inr h'" by (simp add: a h1 h')
  have "storedResults h' tid =
       (if appendedTo tid (a # as) = [] then storedResults h tid
        else mostRecent (nat maxResultsPerTarget) (storedResults h tid @ appendedTo tid (a # as)))"
  proof (cases "i = tid")
    case False
    then show ?thesis using st other by (simp add: a appendedTo_Cons)
  next
    case True
    show ?thesis
      using st same mostRecent_append [of "nat maxResultsPerTarget" "storedResults h tid @ [r]" "appendedTo tid as"]
      by (simp add: a True appendedTo_Cons)
  qed
  then show ?case using run can can' by blast
qed

text \<open>
  C8. For a target whose lookup in \<open>results\<close> finds a list of its own or nothing:
  after an append its list holds at most \<open>maxResultsPerTarget\<close> results; after any
  sequence of appends to such targets its list is what was stored, if nothing was
  appended to it, and otherwise the most recent \<open>maxResultsPerTarget\<close> of what was
  stored and appended; and when \<open>maxResultsPerTarget + k\<close> results were appended to it,
  exactly \<open>maxResultsPerTarget\<close> are retrievable: the appended ones without the
  oldest \<open>k\<close>, in append order. For any other target, one whose id names a member of
  \<open>Object.prototype\<close> (\<open>constructor\<close>, \<open>toString\<close>, \<open>__proto__\<close>, ...) and has no
  list of its own, \<open>addResult\<close> raises a \<open>TypeError\<close> and nothing is appended.
\<close>

theorem retention_cap:
  "(canAppend h tid \<longrightarrow>
      (\<exists>h1 rs. addResult h tid r = Inr h1 \<and> getResultsForTarget h1 tid = Own rs \<and>
         int (length rs) \<le> maxResultsPerTarget)) \<and>
   (list_all (\<lambda>a. canAppend h (fst a)) as \<and> canAppend h tid \<longrightarrow>
      (\<exists>h' rs. addResults h as = Inr h' \<and> getResultsForTarget h' tid = Own rs \<and>
         rs = (if appendedTo tid as = [] then storedResults h tid
               else mostRecent (nat maxResultsPerTarget)
                      (storedResults h tid @ appendedTo tid as)) \<and>
         (appendedTo tid as \<noteq> [] \<longrightarrow> int (length rs) \<le> maxResultsPerTarget) \<and>
         (length (appendedTo tid as) = nat maxResultsPerTarget + k \<longrightarrow>
            length rs = nat maxResultsPerTarget \<and> rs = drop k (appendedTo tid as)))) \<and>
   (\<not> canAppend h tid \<longrightarrow> addResult h tid r = Inl (TypeError ''push''))"
proof (intro conjI impI)
  assume c: "canAppend h tid"
  from addResult_stored [OF c, of r] obtain h1 where
    h1: "addResult h tid r = Inr h1"
      "storedResults h1 tid = mostRecent (nat maxResultsPerTarget) (storedResults h tid @ [r])"
      "canAppend h1 tid"
    using c by blast
  have "int (length (storedResults h1 tid)) \<le> maxResultsPerTarget"
    unfolding h1(2) by (simp add: mostRecent_length maxResultsPerTarget_def)
  then show "\<exists>h1 rs. addResult h tid r = Inr h1 \<and> getResultsForTarget h1 tid = Own rs \<and>
         int (length rs) \<le> maxResultsPerTarget"
    using h1(1) getResults_canAppend [OF h1(3)] by blast
next
  assume "list_all (\<lambda>a. canAppend h (fst a)) as \<and> canAppend h tid"
  then have all: "list_all (\<lambda>a. canAppend h (fst a)) as" and c: "canAppend h tid" by simp_all
  let ?mine = "appendedTo tid as"
  let ?rs = "if ?mine = [] then storedResults h tid
             else mostRecent (nat maxResultsPerTarget) (storedResults h tid @ ?mine)"
  from addResults_stored [OF all, of tid] c obtain h' where
    h': "addResults h as = Inr h'" "storedResults h' tid = ?rs" "canAppend h' tid"
    by blast
  have get: "getResultsForTarget h' tid = Own ?rs"
    using getResults_canAppend [OF h'(3)] h'(2) by simp
  have bound: "?mine \<noteq> [] \<longrightarrow> int (length ?rs) \<le> maxResultsPerTarget"
    by (simp add: mostRecent_length maxResultsPerTarget_def)
  have cut: "length ?rs = nat maxResultsPerTarget \<and> ?rs = drop k ?mine"
    if "length ?mine = nat maxResultsPerTarget + k"
  proof -
    from that have ne: "?mine \<noteq> []" by (auto simp: maxResultsPerTarget_def)
    from that have "length (storedResults h tid) + length ?mine - nat maxResultsPerTarget
                      = length (storedResults h tid) + k" by simp
    then show ?thesis using ne that by (simp add: mostRecent_def)
  qed
  show "\<exists>h' rs. addResults h as = Inr h' \<and> getResultsForTarget h' tid = Own rs \<and>
         rs = ?rs \<and>
         (?mine \<noteq> [] \<longrightarrow> int (length rs) \<le> maxResultsPerTarget) \<and>
         (length ?mine = nat maxResultsPerTarget + k \<longrightarrow>
            length rs = nat maxResultsPerTarget \<and> rs = drop k ?mine)"
    using h'(1) get bound cut by blast
next
  assume "\<not> canAppend h tid"
  then show "addResult h tid r = Inl (TypeError ''push'')"
    by (auto simp: canAppend_def addResult_def split: Lookup.splits)
qed

lemma new_canAppend:
  "canAppend (newPingHandler w th dir) ''google''"
  "\<not> canAppend (newPingHandler w th dir) ''constructor''"
  by (simp_all add: canAppend_def getProp_def newPingHandler_def objectPrototype_def)

theorem retention_cap_witness:
  "canAppend (newPingHandler None 1000 (Files [])) ''google'' \<and>
   list_all (\<lambda>a. canAppend (newPingHandler None 1000 (Files [])) (fst a))
     (map (\<lambda>n. (''google'', probed (int n) True 50)) [0..<1003]) \<and>
   length (appendedTo ''google''
             (map (\<lambda>n. (''google'', probed (int n) True 50)) [0..<1003])) =
     nat maxResultsPerTarget + 3 \<and>
   (\<exists>h'. addResults (newPingHandler None 1000 (Files []))
            (map (\<lambda>n. (''google'', probed (int n) True 50)) [0..<1003]) = Inr h' \<and>
         getResultsForTarget h' ''google'' = Own (map (\<lambda>n. probed (int n) True 50) [3..<1003])) \<and>
   \<not> canAppend (newPingHandler None 1000 (Files [])) ''constructor'' \<and>
   addResult (newPingHandler None 1000 (Files [])) ''constructor'' (probed 0 True 50) =
     Inl (TypeError ''push'')"
proof -
  let ?h = "newPingHandler None 1000 (Files [])"
  let ?as = "map (\<lambda>n. (''google'', probed (int n) True 50)) [0..<1003]"
  have can: "canAppend ?h ''google''" by (rule new_canAppend)
  have all: "list_all (\<lambda>a. canAppend ?h (fst a)) ?as"
    by (simp add: list_all_iff new_canAppend)
  have mine: "appendedTo ''google'' ?as = map (\<lambda>n. probed (int n) True 50) [0..<1003]"
    by (simp add: appendedTo_def filter_map comp_def)
  have len: "length (appendedTo ''google'' ?as) = nat maxResultsPerTarget + 3"
    unfolding mine by (simp add: maxResultsPerTarget_def)
  have cut: "drop 3 (appendedTo ''google'' ?as) = map (\<lambda>n. probed (int n) True 50) [3..<1003]"
    unfolding mine by (simp add: drop_map)
  have no: "\<not> canAppend ?h ''constructor''" by (rule new_canAppend)
  note t = retention_cap [of ?h "''google''" "probed 0 True 50" ?as 3]
  from t all can len have
    "\<exists>h' rs. addResults ?h ?as = Inr h' \<and> getResultsForTarget h' ''google'' = Own rs \<and>
        rs = drop 3 (appendedTo ''google'' ?as)"
    by blast
  then have a: "\<exists>h'. addResults ?h ?as = Inr h' \<and>
      getResultsForTarget h' ''google'' = Own (map (\<lambda>n. probed (int n) True 50) [3..<1003])"
    unfolding cut by blast
  from retention_cap [of ?h "''constructor''" "probed 0 True 50" "[]" 0] no
  have b: "addResult ?h ''constructor'' (probed 0 True 50) = Inl (TypeError ''push'')"
    by blast
  show ?thesis using can all len a no b by blast
qed

section \<open>Uptime percentage\<close>

lemma roundEven_of_int: "roundEven (of_int z) = z"
  by (simp add: roundEven_def)

lemma roundDouble_exact:
  assumes "0 < x" and "\<lfloor>log 2 x\<rfloor> = k" and "x = of_int m * 2 powr of_int (k - 52)"
  shows "roundDouble x = x"
proof -
  have pos: "(2::real) powr of_int (k - 52) > 0" by simp
  have "x / 2 powr of_int (k - 52) = of_int m"
    using assms(3) pos by simp
  then show ?thesis
    using assms(1,2) assms(3) by (simp add: roundDouble_def roundEven_of_int Let_def)
qed

lemma roundDouble_1: "roundDouble 1 = 1"
  by (rule roundDouble_exact [where k = 0 and m = "2 ^ 52"])
     (simp_all add: powr_minus powr_numeral flip: powr_realpow)

lemma roundDouble_34: "roundDouble (3 / 4) = 3 / 4"
  by (rule roundDouble_exact [where k = "-1" and m = "3 * 2 ^ 51"])
     (simp_all add: floor_log_eq_powr_iff powr_minus)

lemma roundDouble_100: "roundDouble 100 = 100"
  by (rule roundDouble_exact [where k = 6 and m = "100 * 2 ^ 46"])
     (simp_all add: floor_log_eq_powr_iff powr_minus)

lemma roundDouble_75: "roundDouble 75 = 75"
  by (rule roundDouble_exact [where k = 6 and m = "75 * 2 ^ 46"])
     (simp_all add: floor_log_eq_powr_iff powr_minus)

lemma uptimeSpec_cases:
  "w = [] \<Longrightarrow> uptimeSpec w = 0"
  "w \<noteq> [] \<Longrightarrow> \<forall>r \<in> set w. isUp r \<Longrightarrow> uptimeSpec w = 100"
  "length (filter isUp w) = 3 \<Longrightarrow> length (filter (\<lambda>r. \<not> isUp r) w) = 1 \<Longrightarrow> uptimeSpec w = 75"
proof -
  show "w = [] \<Longrightarrow> uptimeSpec w = 0" by (simp add: uptimeSpec_def)
  show "uptimeSpec w = 100" if "w \<noteq> []" "\<forall>r \<in> set w. isUp r"
  proof -
    from that(2) have "filter isUp w = w" by (simp add: filter_id_conv)
    then show ?thesis using that(1)
      by (simp add: uptimeSpec_def jsTimes_def jsDivide_def roundDouble_1 roundDouble_100)
  qed
  show "uptimeSpec w = 75"
    if "length (filter isUp w) = 3" "length (filter (\<lambda>r. \<not> isUp r) w) = 1"
  proof -
    have "length w = length (filter isUp w) + length (filter (\<lambda>r. \<not> isUp r) w)"
      by (rule sum_length_filter_compl [symmetric])
    with that have "length w = 4" by simp
    moreover then have "w \<noteq> []" by auto
    ultimately show ?thesis using that(1)
      by (simp add: uptimeSpec_def jsTimes_def jsDivide_def roundDouble_34 roundDouble_75)
  qed
qed

lemma uptime_own:
  assumes "canAppend h tid"
  shows "calculateUptimePercentage h now tid days = Inr (uptimeSpec (inWindow h now tid days))"
proof -
  have cut: "days * 24 * 60 * 60 * 1000 = days * 86400000" by simp
  from canAppend_cases [OF assms] show ?thesis
    unfolding calculateUptimePercentage_def uptimeSpec_def inWindow_def storedResults_def
      Let_def cut
    by auto
qed

text \<open>
  C9. For a target whose lookup in \<open>results\<close> finds a list of its own or nothing,
  \<open>calculateUptimePercentage\<close> is the number of up results in the window divided by
  the number of results in the window, times 100, in double-precision arithmetic, and
  0 for an empty window; so it is 100 when the window is not empty and all of it is up,
  and 75 for three up results and one down result in the window. For a target id that
  names a member of \<open>Object.prototype\<close> whose \<open>length\<close> is not 0 (\<open>constructor\<close>,
  \<open>hasOwnProperty\<close>, \<open>__proto__\<close>, ...) and has no list of its own, it raises a
  \<open>TypeError\<close>.
\<close>

theorem uptime_percentage:
  "(canAppend h tid \<longrightarrow>
      calculateUptimePercentage h now tid days = Inr (uptimeSpec (inWindow h now tid days)) \<and>
      (inWindow h now tid days = [] \<longrightarrow> calculateUptimePercentage h now tid days = Inr 0) \<and>
      (inWindow h now tid days \<noteq> [] \<and> (\<forall>r \<in> set (inWindow h now tid days). isUp r) \<longrightarrow>
         calculateUptimePercentage h now tid days = Inr 100) \<and>
      (length (filter isUp (inWindow h now tid days)) = 3 \<and>
       length (filter (\<lambda>r. \<not> isUp r) (inWindow h now tid days)) = 1 \<longrightarrow>
         calculateUptimePercentage h now tid days = Inr 75)) \<and>
   (getProp (results h) tid = Inherited member \<and> member \<noteq> Some 0 \<longrightarrow>
      calculateUptimePercentage h now tid days = Inl (TypeError ''filter''))"
proof (intro conjI impI)
  assume "getProp (results h) tid = Inherited member \<and> member \<noteq> Some 0"
  then show "calculateUptimePercentage h now tid days = Inl (TypeError ''filter'')"
    by (simp add: calculateUptimePercentage_def)
qed (simp_all add: uptime_own uptimeSpec_cases)

lemma fourProbes_window:
  "canAppend fourProbes ''google''"
  "inWindow fourProbes 1000000000 ''google'' 1 = []"
  "inWindow fourProbes 86400040 ''google'' 1 = [probed 40 True 70]"
  "inWindow fourProbes 50 ''google'' 1 = fourResults"
  by (simp_all add: inWindow_def storedResults_def fourProbes_def fourResults_def probed_def
        canAppend_def getProp_def newPingHandler_def)

theorem uptime_percentage_witness:
  "canAppend fourProbes ''google'' \<and>
   inWindow fourProbes 1000000000 ''google'' 1 = [] \<and>
   calculateUptimePercentage fourProbes 1000000000 ''google'' 1 = Inr 0 \<and>
   inWindow fourProbes 86400040 ''google'' 1 \<noteq> [] \<and>
   list_all isUp (inWindow fourProbes 86400040 ''google'' 1) \<and>
   calculateUptimePercentage fourProbes 86400040 ''google'' 1 = Inr 100 \<and>
   length (filter isUp (inWindow fourProbes 50 ''google'' 1)) = 3 \<and>
   length (filter (\<lambda>r. \<not> isUp r) (inWindow fourProbes 50 ''google'' 1)) = 1 \<and>
   calculateUptimePercentage fourProbes 50 ''google'' 1 = Inr 75 \<and>
   getProp (results fourProbes) ''constructor'' = Inherited (Some 1) \<and>
   calculateUptimePercentage fourProbes 50 ''constructor'' 1 = Inl (TypeError ''filter'')"
proof -
  note w = fourProbes_window
  have 1: "inWindow fourProbes 86400040 ''google'' 1 \<noteq> []"
    "\<forall>r \<in> set (inWindow fourProbes 86400040 ''google'' 1). isUp r"
    unfolding w by (simp_all add: probed_def)
  have 2: "length (filter isUp (inWindow fourProbes 50 ''google'' 1)) = 3"
    "length (filter (\<lambda>r. \<not> isUp r) (inWindow fourProbes 50 ''google'' 1)) = 1"
    unfolding w by (simp_all add: fourResults_def probed_def)
  have 3: "getProp (results fourProbes) ''constructor'' = Inherited (Some 1)"
    by (simp add: getProp_def fourProbes_def newPingHandler_def objectPrototype_def)
  from uptime_percentage [of fourProbes "''google''" 1000000000 1] w(1,2)
  have a: "calculateUptimePercentage fourProbes 1000000000 ''google'' 1 = Inr 0" by blast
  from uptime_percentage [of fourProbes "''google''" 86400040 1] w(1) 1
  have b: "calculateUptimePercentage fourProbes 86400040 ''google'' 1 = Inr 100" by blast
  from uptime_percentage [of fourProbes "''google''" 50 1] w(1) 2
  have c: "calculateUptimePercentage fourProbes 50 ''google'' 1 = Inr 75" by blast
  have 4: "Some (1::nat) \<noteq> Some 0" by simp
  from uptime_percentage [of fourProbes "''constructor''" 50 1 "Some 1"] 3 4
  have d: "calculateUptimePercentage fourProbes 50 ''constructor'' 1 = Inl (TypeError ''filter'')"
    by blast
  have l: "list_all isUp (inWindow fourProbes 86400040 ''google'' 1)"
    using 1(2) by (simp add: list_all_iff)
  show ?thesis using w(1,2) 1(1) l 2 3 a b c d by blast
qed

section \<open>Probe results\<close>

text \<open>
  C4, as the code has it. Whenever the probe settles (every reachability probe, and
  every HTTP probe but one whose response starts and never ends) \<open>pingTarget\<close>
  returns a result; an exception thrown in \<open>httpPing\<close> is caught and becomes a
  result. In every failure mode that settles the result has \<open>isUp = false\<close>. Its
  \<open>error\<close> is the message of the exception that was caught, and is empty when
  nothing was thrown: for connection errors, timeouts, statuses of 400 and above, and
  a failed reachability check. For an HTTP probe whose response starts and never ends
  \<open>pingTarget\<close> does not return.
\<close>

theorem probe_failure_captured:
  "(target_method target = icmp \<or> http \<noteq> Stalled \<longrightarrow>
      (\<exists>r. pingTarget target http ping now = Some r \<and>
           (probeFailed target http ping \<longrightarrow> isUp r = False) \<and>
           error r = (case thrownMessage target http of Some msg \<Rightarrow> msg | None \<Rightarrow> []))) \<and>
   (target_method target \<noteq> icmp \<longrightarrow>
      probeFailed target Stalled ping \<and> pingTarget target Stalled ping now = None)"
  by (auto simp: probeFailed_def thrownMessage_def pingTarget_def httpPing_def icmpPing_def
        split: HttpOutcome.splits IcmpOutcome.splits option.splits prod.splits sum.splits)

theorem probe_failure_captured_witness:
  "(target_method google = icmp \<or> Threw ''Invalid URL'' \<noteq> Stalled) \<and>
   probeFailed google (Threw ''Invalid URL'') ExecFailed \<and>
   (\<exists>r. pingTarget google (Threw ''Invalid URL'') ExecFailed 1000 = Some r \<and>
        isUp r = False \<and> error r = ''Invalid URL'') \<and>
   (target_method google = icmp \<or> TimedOut \<noteq> Stalled) \<and>
   probeFailed google TimedOut ExecFailed \<and>
   (\<exists>r. pingTarget google TimedOut ExecFailed 1000 = Some r \<and>
        isUp r = False \<and> error r = []) \<and>
   target_method google \<noteq> icmp \<and>
   pingTarget google Stalled ExecFailed 1000 = None"
  using probe_failure_captured [of google "Threw ''Invalid URL''" ExecFailed 1000]
    probe_failure_captured [of google TimedOut ExecFailed 1000]
  by (simp add: probeFailed_def thrownMessage_def google_def)

text \<open>A refused connection gives a down result whose \<open>error\<close> is empty, and a
  response that never ends gives no result.\<close>

theorem error_not_populated_counterexample:
  "probeFailed google (RequestError 12) ExecFailed \<and>
   pingTarget google (RequestError 12) ExecFailed 1000 =
     Some \<lparr>timestamp = 1000, isUp = False, responseTime = 12, statusCode = 0,
           serverInfo = [], error = []\<rparr> \<and>
   probeFailed google Stalled ExecFailed \<and>
   pingTarget google Stalled ExecFailed 1000 = None"
  by (simp add: probeFailed_def pingTarget_def httpPing_def google_def)

text \<open>
  C5, as the code has it. For an HTTP-family probe a result is returned unless the
  response stalls, and a returned result is up exactly when a response was received
  with a status code below 400; the target's \<open>expectedStatus\<close> has no influence on
  the result.
\<close>

theorem http_up_iff_below_400:
  "target_method target \<noteq> icmp \<Longrightarrow>
   (http \<noteq> Stalled \<longrightarrow> (\<exists>r. pingTarget target http ping now = Some r)) \<and>
   (\<forall>r. pingTarget target http ping now = Some r \<longrightarrow>
      (isUp r \<longleftrightarrow>
         (\<exists>code server elapsed. http = Responded (Some code) server elapsed \<and> code < 400))) \<and>
   pingTarget (target\<lparr>expectedStatus := e\<rparr>) http ping now = pingTarget target http ping now"
  by (auto simp: pingTarget_def httpPing_def
        split: HttpOutcome.splits option.splits prod.splits sum.splits)

theorem http_up_iff_below_400_witness:
  "target_method google \<noteq> icmp \<and>
   (\<exists>r. pingTarget google (Responded (Some 301) (Some ''gws'') 40) ExecFailed 1000 = Some r \<and>
        isUp r) \<and>
   (\<exists>r. pingTarget google (Responded (Some 404) (Some ''gws'') 40) ExecFailed 1000 = Some r \<and>
        \<not> isUp r) \<and>
   pingTarget (google\<lparr>expectedStatus := Some 200\<rparr>) (Responded (Some 301) (Some ''gws'') 40)
     ExecFailed 1000 =
   pingTarget google (Responded (Some 301) (Some ''gws'') 40) ExecFailed 1000"
proof -
  have m: "target_method google \<noteq> icmp" by (simp add: google_def)
  note a = http_up_iff_below_400
    [OF m, of "Responded (Some 301) (Some ''gws'') 40" ExecFailed 1000 "Some 200"]
  note b = http_up_iff_below_400
    [OF m, of "Responded (Some 404) (Some ''gws'') 40" ExecFailed 1000 "Some 200"]
  from a have 1: "\<exists>r. pingTarget google (Responded (Some 301) (Some ''gws'') 40) ExecFailed 1000
      = Some r \<and> isUp r" by auto
  from b have 2: "\<exists>r. pingTarget google (Responded (Some 404) (Some ''gws'') 40) ExecFailed 1000
      = Some r \<and> \<not> isUp r" by auto
  from a have 3: "pingTarget (google\<lparr>expectedStatus := Some 200\<rparr>)
      (Responded (Some 301) (Some ''gws'') 40) ExecFailed 1000 =
    pingTarget google (Responded (Some 301) (Some ''gws'') 40) ExecFailed 1000" by blast
  show ?thesis using m 1 2 3 by blast
qed

text \<open>A target that expects 404 and receives 404 is reported down.\<close>

theorem expectedStatus_ignored_counterexample:
  "expectedStatus (google\<lparr>expectedStatus := Some 404\<rparr>) = Some 404 \<and>
   pingTarget (google\<lparr>expectedStatus := Some 404\<rparr>) (Responded (Some 404) None 30) ExecFailed 1000 =
     Some \<lparr>timestamp = 1000, isUp = False, responseTime = 30, statusCode = 404,
           serverInfo = [], error = []\<rparr>"
  by (simp add: pingTarget_def httpPing_def google_def)

section \<open>Chunk rotation\<close>

lemma writeFile_new: "k \<notin> fst ` set dir \<Longrightarrow> writeFile k v dir = dir @ [(k, v)]"
  by (induction dir) (auto simp: writeFile_def)

lemma writeFile_last:
  "k \<notin> fst ` set dir \<Longrightarrow> writeFile k v (dir @ [(k, w)]) = dir @ [(k, v)]"
  by (induction dir) (auto simp: writeFile_def)

lemma numbered_fst: "map fst (numbered cs) = [1..<Suc (length cs)]"
  unfolding numbered_def by (rule map_fst_zip) (simp del: upt_Suc)

lemma numbered_snd: "map snd (numbered cs) = cs"
  unfolding numbered_def by (rule map_snd_zip) (simp del: upt_Suc)

lemma numbered_Nil: "numbered [] = []"
  by (simp add: numbered_def)

lemma numbered_keys: "Suc (length cs) \<notin> fst ` set (numbered cs)"
proof -
  have "fst ` set (numbered cs) = set [1..<Suc (length cs)]"
    using numbered_fst [of cs] by (metis set_map)
  then show ?thesis by simp
qed

lemma numbered_snoc: "numbered (cs @ [c]) = numbered cs @ [(Suc (length cs), c)]"
proof -
  have "[1..<Suc (length (cs @ [c]))] = [1..<Suc (length cs)] @ [Suc (length cs)]"
    by simp
  then show ?thesis unfolding numbered_def by (simp del: upt_Suc)
qed

lemma max_gt_2: "2 < maxEntriesPerFile"
  by (simp add: maxEntriesPerFile_def)

text \<open>An append below capacity extends the open chunk and saves it.\<close>

lemma addStatus_open:
  assumes "Suc (length opened) < maxEntriesPerFile" and "sealed \<noteq> [] \<longrightarrow> opened \<noteq> []"
  shows "addStatus (layout sealed opened) y = layout sealed (opened @ [y])"
proof -
  have after: "persisted sealed (opened @ [y])"
    using assms(2) by (cases opened) (auto simp: persisted_def)
  show ?thesis
    using assms(1) after numbered_keys [of sealed]
    by (simp add: addStatus_def layout_def saveCache_def Let_def writeFile_new writeFile_last)
qed

text \<open>The append that fills the open chunk saves it, with the new record, as a sealed
  chunk, and starts the next chunk in memory with the same record.\<close>

lemma addStatus_rotate:
  assumes "Suc (length opened) = maxEntriesPerFile"
  shows "addStatus (layout sealed opened) y = layout (sealed @ [opened @ [y]]) [y]"
proof -
  have after: "\<not> persisted (sealed @ [opened @ [y]]) [y]"
    by (simp add: persisted_def)
  show ?thesis
    using assms after numbered_keys [of sealed]
    by (simp add: addStatus_def layout_def saveCache_def Let_def writeFile_new writeFile_last
          numbered_snoc)
qed

lemma joinChunks_snoc: "cs \<noteq> [] \<Longrightarrow> joinChunks (cs @ [c]) = joinChunks cs @ tl c"
  by (cases cs) auto

lemma addAll_snoc: "addAll h (xs @ [x]) = addStatus (addAll h xs) x"
  by (simp add: addAll_def)

lemma addAll_layout:
  "\<exists>sealed opened.
     addAll (newHistoryHandler []) xs = layout sealed opened \<and>
     length opened < maxEntriesPerFile \<and>
     (sealed \<noteq> [] \<longrightarrow> opened \<noteq> []) \<and>
     joinChunks (sealed @ [opened]) = xs"
proof (induction xs rule: rev_induct)
  case Nil
  have "addAll (newHistoryHandler []) [] = layout [] []"
    by (simp add: addAll_def newHistoryHandler_def layout_def numbered_Nil persisted_def)
  then show ?case using max_gt_2 by (intro exI [of _ "[]"]) simp
next
  case (snoc x xs)
  then obtain sealed opened where
    st: "addAll (newHistoryHandler []) xs = layout sealed opened" and
    len: "length opened < maxEntriesPerFile" and
    ne: "sealed \<noteq> [] \<longrightarrow> opened \<noteq> []" and
    join: "joinChunks (sealed @ [opened]) = xs"
    by blast
  show ?case
  proof (cases "Suc (length opened) < maxEntriesPerFile")
    case True
    have "addAll (newHistoryHandler []) (xs @ [x]) = layout sealed (opened @ [x])"
      by (simp add: addAll_snoc st addStatus_open [OF True ne])
    moreover have "joinChunks (sealed @ [opened @ [x]]) = xs @ [x]"
      using join ne by (cases sealed) auto
    ultimately show ?thesis using True
      by (intro exI [of _ sealed] exI [of _ "opened @ [x]"]) simp
  next
    case False
    with len have full: "Suc (length opened) = maxEntriesPerFile" by simp
    have "addAll (newHistoryHandler []) (xs @ [x]) = layout (sealed @ [opened @ [x]]) [x]"
      by (simp add: addAll_snoc st addStatus_rotate [OF full])
    moreover have "joinChunks ((sealed @ [opened @ [x]]) @ [[x]]) = xs @ [x]"
      using join ne by (cases sealed) auto
    ultimately show ?thesis using max_gt_2
      by (intro exI [of _ "sealed @ [opened @ [x]]"] exI [of _ "[x]"]) simp
  qed
qed

lemma chunks_layout:
  "chunks (layout sealed opened) =
     sealed @ (if persisted sealed opened then [opened] else [])"
proof -
  let ?dir = "cacheDir (layout sealed opened)"
  have "map fst ?dir = [1..<Suc (length sealed)] \<or>
        map fst ?dir = [1..<Suc (Suc (length sealed))]"
    by (simp add: layout_def numbered_fst)
  then have "sorted (map fst ?dir)" by (metis sorted_upt)
  then have "sort_key fst ?dir = ?dir" by (rule sort_key_id_if_sorted)
  then show ?thesis unfolding chunks_def by (simp add: layout_def numbered_snd)
qed

lemma joinChunks_layout:
  assumes "sealed \<noteq> [] \<longrightarrow> opened \<noteq> []"
  shows "joinChunks (chunks (layout sealed opened)) = joinChunks (sealed @ [opened])"
proof (cases "persisted sealed opened")
  case True
  then show ?thesis by (simp add: chunks_layout)
next
  case False
  show ?thesis
  proof (cases "sealed = []")
    case True
    with False show ?thesis by (simp add: chunks_layout persisted_def)
  next
    case nonempty: False
    with assms False have "tl opened = []"
      by (cases opened) (auto simp: persisted_def Suc_le_eq)
    then show ?thesis using False nonempty by (simp add: chunks_layout joinChunks_snoc)
  qed
qed

lemma series_from_chunks: "joinChunks (chunks (addAll (newHistoryHandler []) xs)) = xs"
  using addAll_layout [of xs] by (auto simp: joinChunks_layout)

subsection \<open>The first rotation\<close>

lemma addAll_below:
  "length xs < maxEntriesPerFile \<Longrightarrow> addAll (newHistoryHandler []) xs = layout [] xs"
proof (induction xs rule: rev_induct)
  case Nil
  show ?case
    by (simp add: addAll_def newHistoryHandler_def layout_def numbered_Nil persisted_def)
next
  case (snoc x xs)
  then have "addAll (newHistoryHandler []) xs = layout [] xs"
    and "Suc (length xs) < maxEntriesPerFile" by simp_all
  then show ?case by (simp add: addAll_snoc addStatus_open)
qed

lemma addAll_full:
  assumes "length xs = maxEntriesPerFile"
  shows "addAll (newHistoryHandler []) xs = layout [xs] [last xs]"
proof -
  from assms max_gt_2 have "xs \<noteq> []" by auto
  then obtain ys z where xs: "xs = ys @ [z]" by (cases xs rule: rev_cases) auto
  with assms have len: "Suc (length ys) = maxEntriesPerFile" by simp
  then have "addAll (newHistoryHandler []) ys = layout [] ys"
    by (intro addAll_below) simp
  then have "addAll (newHistoryHandler []) (ys @ [z]) = layout [ys @ [z]] [z]"
    using addStatus_rotate [OF len, of "[]" z] by (simp add: addAll_snoc)
  then show ?thesis by (simp add: xs)
qed

lemma addAll_full_next:
  assumes "length xs = maxEntriesPerFile"
  shows "addStatus (addAll (newHistoryHandler []) xs) y = layout [xs] [last xs, y]"
  using addStatus_open [of "[last xs]" "[xs]" y] max_gt_2
  by (simp add: addAll_full [OF assms])

lemma layout_one:
  "layout [xs] [z] =
     \<lparr>currentRunNumber = 2, entriesInCurrentFile = 1, statusHistory = [z],
      cacheDir = [(1, xs)]\<rparr>"
  by (simp add: layout_def numbered_def persisted_def)

lemma layout_two:
  "layout [xs] [z, y] =
     \<lparr>currentRunNumber = 2, entriesInCurrentFile = 2, statusHistory = [z, y],
      cacheDir = [(1, xs), (2, [z, y])]\<rparr>"
  by (simp add: layout_def numbered_def persisted_def)

lemma slice_all: "int (length xs) \<le> count \<Longrightarrow> slice xs (- count) = xs"
  by (simp add: slice_def Let_def)

lemma fullChunk_facts:
  "length fullChunk = maxEntriesPerFile" "last fullChunk = sample 700"
  by (simp_all add: fullChunk_def maxEntriesPerFile_def last_map)

lemma loadAllHistory_two:
  "a < b \<Longrightarrow>
   loadAllHistory
     \<lparr>currentRunNumber = n, entriesInCurrentFile = e, statusHistory = sh,
      cacheDir = [(a, xs), (b, ys)]\<rparr> = xs @ ys"
  by (simp add: loadAllHistory_def)

text \<open>
  C1, as the code has it. For a handler started on an empty directory: the 700th append
  seals chunk 1 with the 700 records and leaves in memory an open chunk 2 that holds
  one record, the one just appended; the next append saves chunk 2 with two records,
  the 700th and the new one. The chunks in ascending run number, joined without the
  first record of every chunk after the first, are the appended series (after any
  number of appends); joined as they are, the 700th record appears twice, and that is
  what \<open>loadAllHistory\<close> and a query across the boundary return, in this order.
\<close>

theorem chunk_rotation:
  "joinChunks (chunks (addAll (newHistoryHandler []) xs)) = xs \<and>
   (length xs = maxEntriesPerFile \<longrightarrow>
      addAll (newHistoryHandler []) xs =
        \<lparr>currentRunNumber = 2, entriesInCurrentFile = 1, statusHistory = [last xs],
         cacheDir = [(1, xs)]\<rparr> \<and>
      addStatus (addAll (newHistoryHandler []) xs) y =
        \<lparr>currentRunNumber = 2, entriesInCurrentFile = 2, statusHistory = [last xs, y],
         cacheDir = [(1, xs), (2, [last xs, y])]\<rparr> \<and>
      loadAllHistory (addStatus (addAll (newHistoryHandler []) xs) y) = xs @ [last xs, y] \<and>
      ((\<forall>s \<in> set (xs @ [y]). now - days * 86400000 \<le> timestamp s) \<and>
       int (length xs) + 2 \<le> count \<longrightarrow>
         getHistory (addStatus (addAll (newHistoryHandler []) xs) y) now days count =
           xs @ [last xs, y]))"
proof (intro conjI impI)
  show "joinChunks (chunks (addAll (newHistoryHandler []) xs)) = xs"
    by (rule series_from_chunks)
next
  assume full: "length xs = maxEntriesPerFile"
  show "addAll (newHistoryHandler []) xs =
        \<lparr>currentRunNumber = 2, entriesInCurrentFile = 1, statusHistory = [last xs],
         cacheDir = [(1, xs)]\<rparr>"
    by (simp add: addAll_full [OF full] layout_one)
  show next_append: "addStatus (addAll (newHistoryHandler []) xs) y =
        \<lparr>currentRunNumber = 2, entriesInCurrentFile = 2, statusHistory = [last xs, y],
         cacheDir = [(1, xs), (2, [last xs, y])]\<rparr>"
    by (simp add: addAll_full_next [OF full] layout_two)
  show all: "loadAllHistory (addStatus (addAll (newHistoryHandler []) xs) y)
               = xs @ [last xs, y]"
    unfolding next_append by (rule loadAllHistory_two) simp
  assume window: "(\<forall>s \<in> set (xs @ [y]). now - days * 86400000 \<le> timestamp s) \<and>
       int (length xs) + 2 \<le> count"
  from full max_gt_2 have "xs \<noteq> []" by auto
  then have "last xs \<in> set xs" by simp
  with window have inside: "filter (\<lambda>status. now - days * 86400000 \<le> timestamp status)
                      (xs @ [last xs, y]) = xs @ [last xs, y]"
    by (simp add: filter_id_conv)
  have cut: "days * 24 * 60 * 60 * 1000 = days * 86400000" by simp
  have "getHistory (addStatus (addAll (newHistoryHandler []) xs) y) now days count
          = slice (xs @ [last xs, y]) (- count)"
    unfolding getHistory_def all Let_def cut inside by (rule refl)
  also have "\<dots> = xs @ [last xs, y]"
    using window by (intro slice_all) simp
  finally show "getHistory (addStatus (addAll (newHistoryHandler []) xs) y) now days count
                  = xs @ [last xs, y]" .
qed

theorem chunk_rotation_witness:
  "length fullChunk = maxEntriesPerFile \<and>
   list_all (\<lambda>s. 1000 - 1 * 86400000 \<le> timestamp s) (fullChunk @ [sample 701]) \<and>
   int (length fullChunk) + 2 \<le> 1000 \<and>
   statusHistory (addAll (newHistoryHandler []) fullChunk) = [sample 700] \<and>
   cacheDir (addAll (newHistoryHandler []) fullChunk) = [(1, fullChunk)] \<and>
   cacheDir (addStatus (addAll (newHistoryHandler []) fullChunk) (sample 701)) =
     [(1, fullChunk), (2, [sample 700, sample 701])] \<and>
   getHistory (addStatus (addAll (newHistoryHandler []) fullChunk) (sample 701)) 1000 1 1000 =
     fullChunk @ [sample 700, sample 701]"
proof -
  have full: "length fullChunk = maxEntriesPerFile"
    by (rule fullChunk_facts)
  have window: "\<forall>s \<in> set (fullChunk @ [sample 701]). 1000 - 1 * 86400000 \<le> timestamp s"
    by (auto simp: fullChunk_def sample_def)
  have count: "int (length fullChunk) + 2 \<le> 1000"
    by (simp add: fullChunk_facts maxEntriesPerFile_def)
  note rotation = chunk_rotation [of fullChunk "sample 701" 1000 1 1000]
  from rotation full have sealed:
    "addAll (newHistoryHandler []) fullChunk =
       \<lparr>currentRunNumber = 2, entriesInCurrentFile = 1, statusHistory = [last fullChunk],
        cacheDir = [(1, fullChunk)]\<rparr>"
    by blast
  from rotation full have opened:
    "addStatus (addAll (newHistoryHandler []) fullChunk) (sample 701) =
       \<lparr>currentRunNumber = 2, entriesInCurrentFile = 2,
        statusHistory = [last fullChunk, sample 701],
        cacheDir = [(1, fullChunk), (2, [last fullChunk, sample 701])]\<rparr>"
    by blast
  from rotation full window count have query:
    "getHistory (addStatus (addAll (newHistoryHandler []) fullChunk) (sample 701)) 1000 1 1000
       = fullChunk @ [last fullChunk, sample 701]"
    by blast
  have 1: "statusHistory (addAll (newHistoryHandler []) fullChunk) = [sample 700]"
    and 2: "cacheDir (addAll (newHistoryHandler []) fullChunk) = [(1, fullChunk)]"
    unfolding sealed by (simp_all add: fullChunk_facts)
  have 3: "cacheDir (addStatus (addAll (newHistoryHandler []) fullChunk) (sample 701)) =
             [(1, fullChunk), (2, [sample 700, sample 701])]"
    unfolding opened by (simp add: fullChunk_facts)
  have 4: "getHistory (addStatus (addAll (newHistoryHandler []) fullChunk) (sample 701))
             1000 1 1000 = fullChunk @ [sample 700, sample 701]"
    unfolding query by (simp add: fullChunk_facts)
  have inside: "list_all (\<lambda>s. 1000 - 1 * 86400000 \<le> timestamp s) (fullChunk @ [sample 701])"
    using window unfolding list_all_iff .
  show ?thesis using full inside count 1 2 3 4 by blast
qed

text \<open>After 701 appends chunk 2 holds two records and the chunks hold 702.\<close>

theorem chunk_rotation_duplicate_counterexample:
  "length (fullChunk @ [sample 701]) = 701 \<and>
   map_of (cacheDir (addStatus (addAll (newHistoryHandler []) fullChunk) (sample 701))) 2 =
     Some [sample 700, sample 701] \<and>
   length (loadAllHistory (addStatus (addAll (newHistoryHandler []) fullChunk) (sample 701)))
     = 702"
proof -
  have after: "addStatus (addAll (newHistoryHandler []) fullChunk) (sample 701) =
       \<lparr>currentRunNumber = 2, entriesInCurrentFile = 2,
        statusHistory = [sample 700, sample 701],
        cacheDir = [(1, fullChunk), (2, [sample 700, sample 701])]\<rparr>"
    using addAll_full_next [OF fullChunk_facts(1), of "sample 701"]
    by (simp add: layout_two fullChunk_facts(2))
  show ?thesis unfolding after
    by (simp add: loadAllHistory_two fullChunk_facts maxEntriesPerFile_def)
qed

section \<open>Startup on a full chunk\<close>

text \<open>
  C2, evaluated. On a directory whose only chunk \<open>n\<close> is full, \<open>initialize\<close> moves to
  run number \<open>n + 1\<close> and resets the entry counter, but keeps the full chunk as the
  in-memory history: the next append saves chunk \<open>n + 1\<close> with all records of chunk
  \<open>n\<close> followed by the new one.
\<close>

theorem restart_keeps_full_chunk:
  "length xs = maxEntriesPerFile \<Longrightarrow>
   initialize (newHistoryHandler [(n, xs)]) =
     \<lparr>currentRunNumber = n + 1, entriesInCurrentFile = 0, statusHistory = xs,
      cacheDir = [(n, xs)]\<rparr> \<and>
   cacheDir (addStatus (initialize (newHistoryHandler [(n, xs)])) y) =
     [(n, xs), (n + 1, xs @ [y])]"
  using max_gt_2
  by (simp add: initialize_def findLatestRunNumber_def newHistoryHandler_def addStatus_def
        saveCache_def writeFile_def Let_def)

theorem restart_keeps_full_chunk_witness:
  "length fullChunk = maxEntriesPerFile \<and>
   statusHistory (initialize (newHistoryHandler [(1, fullChunk)])) = fullChunk \<and>
   entriesInCurrentFile (initialize (newHistoryHandler [(1, fullChunk)])) = 0 \<and>
   cacheDir (addStatus (initialize (newHistoryHandler [(1, fullChunk)])) (sample 701)) =
     [(1, fullChunk), (2, fullChunk @ [sample 701])] \<and>
   length (fullChunk @ [sample 701]) = 701"
proof -
  have full: "length fullChunk = maxEntriesPerFile"
    by (rule fullChunk_facts)
  note restart = restart_keeps_full_chunk [OF full, of 1 "sample 701"]
  have 1: "statusHistory (initialize (newHistoryHandler [(1, fullChunk)])) = fullChunk"
    and 2: "entriesInCurrentFile (initialize (newHistoryHandler [(1, fullChunk)])) = 0"
    unfolding restart [THEN conjunct1] by simp_all
  have 3: "cacheDir (addStatus (initialize (newHistoryHandler [(1, fullChunk)])) (sample 701))
             = [(1, fullChunk), (2, fullChunk @ [sample 701])]"
    unfolding restart [THEN conjunct2] by simp
  have 4: "length (fullChunk @ [sample 701]) = 701"
    by (simp add: full maxEntriesPerFile_def)
  show ?thesis using full 1 2 3 4 by blast
qed

end
